theory Spec2Isabelle
  imports Complex_Main
begin

section \<open>The arbitrage bot of \<^verbatim>\<open>bot.py\<close>\<close>

text \<open>
  The theory embeds the two methods of \<^verbatim>\<open>ArbitrageBot\<close> that carry the logic of the
  program: \<^verbatim>\<open>get_arbitrage_opportunities\<close> (the detector) and \<^verbatim>\<open>scan_multiple_pairs\<close>
  (the scanner).

  Prices are Python floats in the source, that is IEEE 754 binary64 numbers. A finite float is
  modelled by the rational number it denotes, and the comparisons of the source (\<^verbatim>\<open><\<close>,
  \<^verbatim>\<open>>\<close>) are exact on them. The subtraction, the division and the multiplication of line
  62 round their exact result to the nearest binary64 number, ties to even, and overflow to
  infinity, as the hardware does; the literal \<^verbatim>\<open>0.1\<close> of line 64 is the binary64 number
  nearest to one tenth. A Python dictionary is an association list in insertion order, the
  order in which \<^verbatim>\<open>keys()\<close> and \<^verbatim>\<open>items()\<close> iterate. An exception is a value
  \<open>Inl e\<close> of a sum type.
\<close>

subsection \<open>Exceptions\<close>

datatype py_error = ValueError | KeyError | ZeroDivisionError | ExchangeError string

subsection \<open>Python floats\<close>

text \<open>
  The result of a float operation: a finite binary64 number, given by its rational value, or
  an infinity. The two zeros are not told apart (they compare equal and a division by either
  raises). NaN is left out: none of the operations below produces it from finite operands.
  The order is the one of Python's comparisons.
\<close>

datatype pyfloat = NegInf | Finite rat | PosInf

instantiation pyfloat :: linorder
begin

fun less_eq_pyfloat :: "pyfloat \<Rightarrow> pyfloat \<Rightarrow> bool" where
  "less_eq_pyfloat NegInf y = True"
| "less_eq_pyfloat (Finite a) NegInf = False"
| "less_eq_pyfloat (Finite a) (Finite b) = (a \<le> b)"
| "less_eq_pyfloat (Finite a) PosInf = True"
| "less_eq_pyfloat PosInf NegInf = False"
| "less_eq_pyfloat PosInf (Finite b) = False"
| "less_eq_pyfloat PosInf PosInf = True"

fun less_pyfloat :: "pyfloat \<Rightarrow> pyfloat \<Rightarrow> bool" where
  "less_pyfloat x NegInf = False"
| "less_pyfloat NegInf (Finite b) = True"
| "less_pyfloat NegInf PosInf = True"
| "less_pyfloat (Finite a) (Finite b) = (a < b)"
| "less_pyfloat (Finite a) PosInf = True"
| "less_pyfloat PosInf (Finite b) = False"
| "less_pyfloat PosInf PosInf = False"

instance
proof
  fix x y z :: pyfloat
  show "(x < y) = (x \<le> y \<and> \<not> y \<le> x)"
    by (cases x; cases y) auto
  show "x \<le> x" by (cases x) auto
  show "x \<le> y \<Longrightarrow> y \<le> z \<Longrightarrow> x \<le> z"
    by (cases x; cases y; cases z) auto
  show "x \<le> y \<Longrightarrow> y \<le> x \<Longrightarrow> x = y"
    by (cases x; cases y) auto
  show "x \<le> y \<or> y \<le> x"
    by (cases x; cases y) auto
qed


end

instantiation pyfloat :: uminus
begin

fun uminus_pyfloat :: "pyfloat \<Rightarrow> pyfloat" where
  "uminus_pyfloat NegInf = PosInf"
| "uminus_pyfloat (Finite a) = Finite (- a)"
| "uminus_pyfloat PosInf = NegInf"

instance ..


end

text \<open>
  Rounding to binary64. For a positive rational \<open>a\<close> with \<open>2 ^ l \<le> a < 2 ^ (l + 1)\<close> the
  spacing of the binary64 numbers around \<open>a\<close> is \<open>2 ^ e\<close> with \<open>e = max (l - 52) (- 1074)\<close>
  (53 bits of precision, subnormal numbers below \<open>2 ^ (- 1022)\<close>); \<open>a\<close> is rounded to the
  nearest multiple of \<open>2 ^ e\<close>, a tie going to the even multiple; a result of \<open>2 ^ 1024\<close> or
  more is the infinity.
\<close>

definition pow2 :: "int \<Rightarrow> rat" where
  "pow2 k = (if 0 \<le> k then 2 ^ nat k else 1 / 2 ^ nat (- k))"

definition round_half_even :: "rat \<Rightarrow> int" where
  "round_half_even r =
     (let f = \<lfloor>r\<rfloor>; d = r - of_int f in
      if d < 1 / 2 then f
      else if 1 / 2 < d then f + 1
      else if even f then f else f + 1)"

function halvings :: "rat \<Rightarrow> nat" where
  "halvings a = (if 2 \<le> a then Suc (halvings (a / 2)) else 0)"
  by pat_completeness auto
termination
proof (relation "measure (\<lambda>a. nat \<lfloor>a\<rfloor>)")
  show "wf (measure (\<lambda>a. nat \<lfloor>a\<rfloor>))" by simp
next
  fix a :: rat
  assume a: "2 \<le> a"
  have "a / 2 \<le> a - 1" using a by simp
  then have "\<lfloor>a / 2\<rfloor> \<le> \<lfloor>a - 1\<rfloor>" by (rule floor_mono)
  then have "\<lfloor>a / 2\<rfloor> < \<lfloor>a\<rfloor>" by simp
  moreover have "0 < \<lfloor>a\<rfloor>" using a by simp
  ultimately show "(a / 2, a) \<in> measure (\<lambda>a. nat \<lfloor>a\<rfloor>)" by simp
qed

function doublings :: "rat \<Rightarrow> nat" where
  "doublings a = (if 0 < a \<and> a < 1 then Suc (doublings (a * 2)) else 0)"
  by pat_completeness auto
termination
proof (relation "measure (\<lambda>a. nat \<lceil>1 / a\<rceil>)")
  show "wf (measure (\<lambda>a. nat \<lceil>1 / a\<rceil>))" by simp
next
  fix a :: rat
  assume a: "0 < a \<and> a < 1"
  then have x: "1 < 1 / a" by simp
  then have c: "2 \<le> \<lceil>1 / a\<rceil>" by (simp add: le_ceiling_iff)
  have "1 / a \<le> of_int \<lceil>1 / a\<rceil>" by (rule le_of_int_ceiling)
  then have "1 / (a * 2) \<le> of_int \<lceil>1 / a\<rceil> / 2" by simp
  also have "\<dots> \<le> of_int (\<lceil>1 / a\<rceil> - 1)" using c by simp
  finally have "\<lceil>1 / (a * 2)\<rceil> \<le> \<lceil>1 / a\<rceil> - 1" by (rule ceiling_le)
  then show "(a * 2, a) \<in> measure (\<lambda>a. nat \<lceil>1 / a\<rceil>)" using c a by simp
qed

definition floor_log2 :: "rat \<Rightarrow> int" where
  "floor_log2 a = (if 1 \<le> a then int (halvings a) else - int (doublings a))"

definition round_magnitude :: "rat \<Rightarrow> pyfloat" where
  "round_magnitude a =
     (if a = 0 then Finite 0
      else
        let e = max (floor_log2 a - 52) (- 1074);
            m = round_half_even (a / pow2 e);
            r = of_int m * pow2 e
        in if pow2 1024 \<le> r then PosInf else Finite r)"

definition fl_round :: "rat \<Rightarrow> pyfloat" where
  "fl_round x = (if x < 0 then - round_magnitude (- x) else round_magnitude x)"

text \<open>
  The float operations of line 62 and the float literal of line 64. The operands that the
  source takes from \<^verbatim>\<open>prices\<close> are finite floats. The operations are defined on every
  rational operand; on operands that are binary64 numbers they are the IEEE operations.
  \<^verbatim>\<open>x / b\<close> raises \<^verbatim>\<open>ZeroDivisionError\<close> when \<^verbatim>\<open>b\<close> is zero.
\<close>

definition float_literal :: "rat \<Rightarrow> pyfloat" where
  "float_literal x = fl_round x"

definition float_sub :: "rat \<Rightarrow> rat \<Rightarrow> pyfloat" where
  "float_sub a b = fl_round (a - b)"

definition float_truediv :: "pyfloat \<Rightarrow> rat \<Rightarrow> py_error + pyfloat" where
  "float_truediv x b =
     (if b = 0 then Inl ZeroDivisionError
      else Inr (case x of
                  Finite a \<Rightarrow> fl_round (a / b)
                | PosInf \<Rightarrow> if 0 < b then PosInf else NegInf
                | NegInf \<Rightarrow> if 0 < b then NegInf else PosInf))"

definition float_mul_100 :: "pyfloat \<Rightarrow> pyfloat" where
  "float_mul_100 x =
     (case x of Finite a \<Rightarrow> fl_round (a * 100) | PosInf \<Rightarrow> PosInf | NegInf \<Rightarrow> NegInf)"

subsection \<open>Data\<close>

text \<open>
  The ticker an exchange returns (the fields the source reads). Each field may be \<^verbatim>\<open>None\<close>.
\<close>

record ticker =
  ticker_bid :: "rat option"
  ticker_ask :: "rat option"
  ticker_last :: "rat option"

text \<open>
  An exchange client is its \<^verbatim>\<open>fetch_ticker\<close>: given the symbol it returns a ticker or raises.
  \<^verbatim>\<open>self.exchanges\<close> is a dictionary from exchange names to clients.
\<close>

type_synonym exchange = "string \<Rightarrow> py_error + ticker"

type_synonym exchanges = "(string \<times> exchange) list"

text \<open>The value stored in \<^verbatim>\<open>prices[name]\<close> (lines 44 to 48).\<close>

record price_entry =
  bid :: rat
  ask :: rat
  last_price :: "rat option"

type_synonym prices = "(string \<times> price_entry) list"

text \<open>The dictionary appended to \<^verbatim>\<open>opportunities\<close> (lines 65 to 72).\<close>

record opportunity =
  buy_at :: string
  sell_at :: string
  buy_price :: rat
  sell_price :: rat
  profit_percent :: pyfloat
  symbol :: string

subsection \<open>Python built-ins used by the source\<close>

text \<open>Truth value of an optional number: \<^verbatim>\<open>None\<close> and zero are false.\<close>

fun truthy :: "rat option \<Rightarrow> bool" where
  "truthy None = False"
| "truthy (Some v) = (v \<noteq> 0)"

text \<open>
  \<^verbatim>\<open>d[k] = v\<close>: an existing key keeps its position and takes the new value, a new key goes
  to the end.
\<close>

fun dict_set :: "'k \<Rightarrow> 'v \<Rightarrow> ('k \<times> 'v) list \<Rightarrow> ('k \<times> 'v) list" where
  "dict_set k v [] = [(k, v)]"
| "dict_set k v ((k', v') # d) = (if k' = k then (k, v) # d else (k', v') # dict_set k v d)"

text \<open>\<^verbatim>\<open>d[k]\<close>: raises \<^verbatim>\<open>KeyError\<close> on a missing key.\<close>

definition dict_get :: "('k \<times> 'v) list \<Rightarrow> 'k \<Rightarrow> py_error + 'v" where
  "dict_get d k = (case map_of d k of None \<Rightarrow> Inl KeyError | Some v \<Rightarrow> Inr v)"

definition dict_keys :: "('k \<times> 'v) list \<Rightarrow> 'k list" where
  "dict_keys d = map fst d"

text \<open>
  \<^verbatim>\<open>min(iterable, key=f)\<close> and \<^verbatim>\<open>max(iterable, key=f)\<close>. Both keep the first item and
  replace it only by an item whose key is strictly better (\<^verbatim>\<open><\<close> for min, \<^verbatim>\<open>>\<close> for max);
  the key is computed once for each item and its exception is passed on; an empty iterable
  raises \<^verbatim>\<open>ValueError\<close>.
\<close>

fun min_max_loop ::
  "(rat \<Rightarrow> rat \<Rightarrow> bool) \<Rightarrow> ('a \<Rightarrow> py_error + rat) \<Rightarrow> 'a \<Rightarrow> rat \<Rightarrow> 'a list \<Rightarrow> py_error + 'a" where
  "min_max_loop better key maxitem maxval [] = Inr maxitem"
| "min_max_loop better key maxitem maxval (item # rest) =
     (case key item of
        Inl e \<Rightarrow> Inl e
      | Inr val \<Rightarrow>
          if better val maxval then min_max_loop better key item val rest
          else min_max_loop better key maxitem maxval rest)"

definition min_max ::
  "(rat \<Rightarrow> rat \<Rightarrow> bool) \<Rightarrow> 'a list \<Rightarrow> ('a \<Rightarrow> py_error + rat) \<Rightarrow> py_error + 'a" where
  "min_max better xs key =
     (case xs of
        [] \<Rightarrow> Inl ValueError
      | item # rest \<Rightarrow>
          (case key item of
             Inl e \<Rightarrow> Inl e
           | Inr val \<Rightarrow> min_max_loop better key item val rest))"

definition py_min :: "'a list \<Rightarrow> ('a \<Rightarrow> py_error + rat) \<Rightarrow> py_error + 'a" where
  "py_min xs key = min_max (\<lambda>val maxval. val < maxval) xs key"

definition py_max :: "'a list \<Rightarrow> ('a \<Rightarrow> py_error + rat) \<Rightarrow> py_error + 'a" where
  "py_max xs key = min_max (\<lambda>val maxval. val > maxval) xs key"

subsection \<open>\<^verbatim>\<open>get_arbitrage_opportunities\<close>\<close>

text \<open>
  Lines 40 to 52, the loop over \<^verbatim>\<open>self.exchanges.items()\<close>. A fetch that raises is logged and
  skipped; a ticker whose bid or ask is \<^verbatim>\<open>None\<close> or zero is skipped; any other ticker is
  stored under the exchange's name.
\<close>

fun fetch_prices :: "exchanges \<Rightarrow> string \<Rightarrow> prices \<Rightarrow> prices" where
  "fetch_prices [] symbol' prices = prices"
| "fetch_prices ((name, exchange) # rest) symbol' prices =
     (case exchange symbol' of
        Inl e \<Rightarrow> fetch_prices rest symbol' prices
      | Inr ticker \<Rightarrow>
          (case (ticker_bid ticker, ticker_ask ticker) of
             (Some b, Some a) \<Rightarrow>
               if truthy (Some b) \<and> truthy (Some a)
               then fetch_prices rest symbol'
                      (dict_set name \<lparr>bid = b, ask = a, last_price = ticker_last ticker\<rparr> prices)
               else fetch_prices rest symbol' prices
           | _ \<Rightarrow> fetch_prices rest symbol' prices))"

text \<open>
  Lines 54 to 73, on the dictionary \<^verbatim>\<open>prices\<close> built above. The result is the list
  \<^verbatim>\<open>opportunities\<close> when the block ends, or the exception that leaves it.
\<close>

definition lowest_ask_exchange :: "prices \<Rightarrow> py_error + string" where
  "lowest_ask_exchange prices =
     py_min (dict_keys prices)
       (\<lambda>x. case dict_get prices x of Inl e \<Rightarrow> Inl e | Inr p \<Rightarrow> Inr (ask p))"

definition highest_bid_exchange :: "prices \<Rightarrow> py_error + string" where
  "highest_bid_exchange prices =
     py_max (dict_keys prices)
       (\<lambda>x. case dict_get prices x of Inl e \<Rightarrow> Inl e | Inr p \<Rightarrow> Inr (bid p))"

text \<open>Line 62: \<^verbatim>\<open>((highest_bid - lowest_ask) / lowest_ask) * 100\<close>.\<close>

definition arbitrage_percent :: "rat \<Rightarrow> rat \<Rightarrow> py_error + pyfloat" where
  "arbitrage_percent highest_bid lowest_ask =
     (case float_truediv (float_sub highest_bid lowest_ask) lowest_ask of
        Inl e \<Rightarrow> Inl e
      | Inr q \<Rightarrow> Inr (float_mul_100 q))"

definition detect :: "string \<Rightarrow> prices \<Rightarrow> py_error + opportunity list" where
  "detect symbol' prices =
     (if length prices \<ge> 2 then
        (case lowest_ask_exchange prices of Inl e \<Rightarrow> Inl e | Inr lowest_ask_ex \<Rightarrow>
        (case highest_bid_exchange prices of Inl e \<Rightarrow> Inl e | Inr highest_bid_ex \<Rightarrow>
        (case dict_get prices lowest_ask_ex of Inl e \<Rightarrow> Inl e | Inr lo \<Rightarrow>
        (case dict_get prices highest_bid_ex of Inl e \<Rightarrow> Inl e | Inr hi \<Rightarrow>
           (let lowest_ask = ask lo; highest_bid = bid hi in
            if lowest_ask > 0 \<and> highest_bid > lowest_ask then
              (case arbitrage_percent highest_bid lowest_ask of Inl e \<Rightarrow> Inl e | Inr percent \<Rightarrow>
                 if percent > float_literal (1 / 10) then
                   Inr [\<lparr>buy_at = lowest_ask_ex, sell_at = highest_bid_ex,
                         buy_price = lowest_ask, sell_price = highest_bid,
                         profit_percent = percent, symbol = symbol'\<rparr>]
                 else Inr [])
            else Inr [])))))
      else Inr [])"

text \<open>
  The whole method: \<^verbatim>\<open>opportunities\<close> starts empty, the \<^verbatim>\<open>try\<close> block fetches and detects,
  and \<^verbatim>\<open>except Exception\<close> (line 76) logs and falls through to \<^verbatim>\<open>return opportunities\<close>,
  which is still empty then, the \<^verbatim>\<open>append\<close> of line 73 being the last thing that changes it.
\<close>

definition get_arbitrage_opportunities :: "exchanges \<Rightarrow> string \<Rightarrow> opportunity list" where
  "get_arbitrage_opportunities exs symbol' =
     (case detect symbol' (fetch_prices exs symbol' []) of
        Inl e \<Rightarrow> []
      | Inr opportunities \<Rightarrow> opportunities)"

subsection \<open>\<^verbatim>\<open>scan_multiple_pairs\<close>\<close>

definition common_pairs :: "string list" where
  "common_pairs = [''BTC/USDT'', ''ETH/USDT'', ''ADA/USDT'', ''DOT/USDT'', ''LINK/USDT'']"

text \<open>
  Lines 85 to 91, the loop over the pairs with the accumulator \<^verbatim>\<open>all_opportunities\<close>. The
  call of line 87 is the parameter \<open>scan_one\<close>: when it raises, \<^verbatim>\<open>except Exception\<close> logs
  and the loop goes on with the accumulator unchanged. The awaited sleep changes no value.
\<close>

fun scan_loop ::
  "(string \<Rightarrow> py_error + opportunity list) \<Rightarrow> string list \<Rightarrow> opportunity list \<Rightarrow> opportunity list" where
  "scan_loop scan_one [] all_opportunities = all_opportunities"
| "scan_loop scan_one (pair # rest) all_opportunities =
     (case scan_one pair of
        Inl e \<Rightarrow> scan_loop scan_one rest all_opportunities
      | Inr opportunities \<Rightarrow> scan_loop scan_one rest (all_opportunities @ opportunities))"

text \<open>
  Lines 93 and 94: \<^verbatim>\<open>sort(key=..., reverse=True)\<close> is a stable sort by descending key, as is
  the stable insertion sort \<^const>\<open>sort_key\<close> on the negated key; \<^verbatim>\<open>[:5]\<close> keeps the first
  five items.
\<close>

definition rank_opportunities :: "opportunity list \<Rightarrow> opportunity list" where
  "rank_opportunities all_opportunities =
     take 5 (sort_key (\<lambda>x. - profit_percent x) all_opportunities)"

definition scan_multiple_pairs :: "exchanges \<Rightarrow> opportunity list" where
  "scan_multiple_pairs exs =
     rank_opportunities
       (scan_loop (\<lambda>pair. Inr (get_arbitrage_opportunities exs pair)) common_pairs [])"

subsection \<open>Example inputs\<close>

text \<open>
  Exchange clients and price dictionaries on which the theorems below are instantiated. Every
  price in them is a binary64 number: an integer below \<open>2 ^ 53\<close>, or the float that a decimal
  literal denotes (7040392854975283 / 70368744177664 is \<^verbatim>\<open>100.05\<close> and
  3550103143763149 / 35184372088832 is \<^verbatim>\<open>100.9\<close>).
\<close>

definition quoting :: "string \<Rightarrow> rat \<Rightarrow> rat \<Rightarrow> exchange" where
  "quoting listed b a symbol' =
     (if symbol' = listed
      then Inr \<lparr>ticker_bid = Some b, ticker_ask = Some a, ticker_last = None\<rparr>
      else Inl (ExchangeError ''bad symbol''))"

definition unreachable :: exchange where
  "unreachable symbol' = Inl (ExchangeError ''network error'')"

definition spread_exchanges :: exchanges where
  "spread_exchanges =
     [(''binance'', quoting ''BTC/USDT'' 50000 50010), (''kucoin'', quoting ''BTC/USDT'' 50200 50220)]"

definition crossed_exchanges :: exchanges where
  "crossed_exchanges =
     [(''binance'', quoting ''BTC/USDT'' 101 100), (''kucoin'', quoting ''BTC/USDT'' 99 102)]"

definition flat_exchanges :: exchanges where
  "flat_exchanges =
     [(''binance'', quoting ''BTC/USDT'' 100 101), (''kucoin'', quoting ''BTC/USDT'' (7040392854975283 / 70368744177664) (3550103143763149 / 35184372088832))]"

definition unreachable_exchanges :: exchanges where
  "unreachable_exchanges = [(''binance'', unreachable), (''kucoin'', unreachable)]"

definition spread_prices :: prices where
  "spread_prices =
     [(''binance'', \<lparr>bid = 50000, ask = 50010, last_price = None\<rparr>),
      (''kucoin'', \<lparr>bid = 50200, ask = 50220, last_price = None\<rparr>)]"

definition flat_prices :: prices where
  "flat_prices =
     [(''A'', \<lparr>bid = 100, ask = 101, last_price = None\<rparr>),
      (''B'', \<lparr>bid = 7040392854975283 / 70368744177664, ask = 3550103143763149 / 35184372088832, last_price = None\<rparr>)]"

definition boundary_prices :: prices where
  "boundary_prices =
     [(''A'', \<lparr>bid = 999, ask = 1000, last_price = None\<rparr>),
      (''B'', \<lparr>bid = 1001, ask = 1002, last_price = None\<rparr>)]"

definition single_prices :: prices where
  "single_prices = [(''binance'', \<lparr>bid = 50200, ask = 50010, last_price = None\<rparr>)]"

definition half_down_exchanges :: exchanges where
  "half_down_exchanges = [(''binance'', quoting ''BTC/USDT'' 50200 50010), (''kucoin'', unreachable)]"

definition failing_scan :: "string \<Rightarrow> py_error + opportunity list" where
  "failing_scan pair =
     (if pair = ''ETH/USDT'' then Inl (ExchangeError ''timeout'')
      else Inr (get_arbitrage_opportunities spread_exchanges pair))"

definition tie_prices :: prices where
  "tie_prices =
     [(''binance'', \<lparr>bid = 100, ask = 101, last_price = None\<rparr>),
      (''kucoin'', \<lparr>bid = 102, ask = 101, last_price = None\<rparr>),
      (''okx'', \<lparr>bid = 102, ask = 103, last_price = None\<rparr>)]"

definition rounding_prices :: prices where
  "rounding_prices =
     [(''A'', \<lparr>bid = 1, ask = 7999999999999999, last_price = None\<rparr>),
      (''B'', \<lparr>bid = 8007999999999999, ask = 8008000000000000, last_price = None\<rparr>)]"

definition rounding_exchanges :: exchanges where
  "rounding_exchanges =
     [(''A'', quoting ''BTC/USDT'' 1 7999999999999999),
      (''B'', quoting ''BTC/USDT'' 8007999999999999 8008000000000000)]"

definition boundary_exchanges :: exchanges where
  "boundary_exchanges =
     [(''A'', quoting ''BTC/USDT'' 999 1000), (''B'', quoting ''BTC/USDT'' 1001 1002)]"

section \<open>Lemmas\<close>

subsection \<open>Rounding and the float operations\<close>

lemma floor_rat_numeral_divide:
  "\<lfloor>numeral a / numeral b :: rat\<rfloor> = numeral a div numeral b"
  by (metis floor_divide_of_int_eq of_int_numeral)

lemma floor_rat_one_divide:
  "\<lfloor>1 / numeral b :: rat\<rfloor> = 1 div numeral b"
  by (metis floor_divide_of_int_eq of_int_numeral of_int_1)

lemmas fl_eval =
  fl_round_def round_magnitude_def floor_log2_def round_half_even_def pow2_def Let_def
  floor_rat_numeral_divide floor_rat_one_divide

lemmas percent_eval =
  arbitrage_percent_def float_sub_def float_truediv_def float_mul_100_def float_literal_def fl_eval

lemmas detect_eval =
  detect_def lowest_ask_exchange_def highest_bid_exchange_def py_min_def py_max_def min_max_def
  dict_keys_def dict_get_def

lemma float_tenth: "float_literal (1 / 10) = Finite (3602879701896397 / 36028797018963968)"
  by (simp add: float_literal_def fl_eval)

lemma pow2_pos: "0 < pow2 k"
  by (simp add: pow2_def)

lemma round_half_even_nonneg: "0 \<le> r \<Longrightarrow> 0 \<le> round_half_even r"
  by (simp add: round_half_even_def Let_def)

lemma round_magnitude_nonneg: "0 \<le> a \<Longrightarrow> Finite 0 \<le> round_magnitude a"
proof -
  assume a: "0 \<le> a"
  have "0 \<le> a / pow2 e" for e
    using a pow2_pos [of e] by simp
  then have "0 \<le> round_half_even (a / pow2 e)" for e
    by (rule round_half_even_nonneg)
  then have "0 \<le> rat_of_int (round_half_even (a / pow2 e)) * pow2 e" for e
    using pow2_pos [of e] by simp
  then show ?thesis
    by (simp add: round_magnitude_def Let_def)
qed

lemma fl_round_nonneg: "0 \<le> x \<Longrightarrow> Finite 0 \<le> fl_round x"
  by (simp add: fl_round_def round_magnitude_nonneg)

lemma uminus_nonpos: "Finite 0 \<le> x \<Longrightarrow> - x \<le> Finite 0"
  by (cases x) auto

lemma fl_round_nonpos: "x \<le> 0 \<Longrightarrow> fl_round x \<le> Finite 0"
proof (cases "x < 0")
  case True
  then have "Finite 0 \<le> round_magnitude (- x)"
    by (simp add: round_magnitude_nonneg)
  then have "- round_magnitude (- x) \<le> Finite 0" by (rule uminus_nonpos)
  with True show ?thesis by (simp add: fl_round_def)
next
  case False
  assume "x \<le> 0"
  with False have "x = 0" by simp
  then show ?thesis by (simp add: fl_round_def round_magnitude_def)
qed

lemma arbitrage_percent_needs_positive_ask:
  assumes gt: "lo < hi" and run: "arbitrage_percent hi lo = Inr p"
    and above: "float_literal (1 / 10) < p"
  shows "0 < lo"
proof (rule ccontr)
  assume "\<not> 0 < lo"
  then have le: "lo \<le> 0" by simp
  have nz: "lo \<noteq> 0" using run by (auto simp: arbitrage_percent_def float_truediv_def)
  with le have neg: "lo < 0" by simp
  have d: "Finite 0 \<le> float_sub hi lo"
    unfolding float_sub_def using gt by (intro fl_round_nonneg) simp
  obtain q where q: "float_truediv (float_sub hi lo) lo = Inr q" and p: "p = float_mul_100 q"
    using run by (auto simp: arbitrage_percent_def split: sum.splits)
  have "q \<le> Finite 0"
  proof (cases "float_sub hi lo")
    case NegInf
    with d show ?thesis by simp
  next
    case (Finite a)
    with d have "0 \<le> a" by simp
    then have "a / lo \<le> 0" using neg by (simp add: divide_nonneg_neg)
    then have "fl_round (a / lo) \<le> Finite 0" by (rule fl_round_nonpos)
    with q Finite nz show ?thesis by (simp add: float_truediv_def)
  next
    case PosInf
    with q nz neg show ?thesis by (simp add: float_truediv_def)
  qed
  have "p \<le> Finite 0"
  proof (cases q)
    case NegInf
    with p show ?thesis by (simp add: float_mul_100_def)
  next
    case (Finite a)
    with \<open>q \<le> Finite 0\<close> have "a \<le> 0" by simp
    then have "a * 100 \<le> 0" by (simp add: mult_le_0_iff)
    then have "fl_round (a * 100) \<le> Finite 0" by (rule fl_round_nonpos)
    with p Finite show ?thesis by (simp add: float_mul_100_def)
  next
    case PosInf
    with \<open>q \<le> Finite 0\<close> show ?thesis by simp
  qed
  moreover have "Finite 0 < float_literal (1 / 10)" by (simp add: float_tenth)
  ultimately show False using above by simp
qed

lemma arbitrage_percent_defined:
  "lo \<noteq> 0 \<Longrightarrow> \<exists>p. arbitrage_percent hi lo = Inr p"
  by (simp add: arbitrage_percent_def float_truediv_def)

lemma spread_percent:
  "arbitrage_percent 50200 50010 = Inr (Finite (3422051306540269 / 9007199254740992))"
  by (simp add: percent_eval)

lemma boundary_percent:
  "arbitrage_percent 1001 1000 = Inr (Finite (3602879701896397 / 36028797018963968))"
  by (simp add: percent_eval)

lemma rounding_percent:
  "arbitrage_percent 8007999999999999 7999999999999999 =
     Inr (Finite (3602879701896397 / 36028797018963968))"
  by (simp add: percent_eval)

lemma crossed_percent: "arbitrage_percent 101 100 = Inr (Finite 1)"
  by (simp add: percent_eval)

lemma tie_percent:
  "arbitrage_percent 102 101 = Inr (Finite (1114752383012499 / 1125899906842624))"
  by (simp add: percent_eval)

subsection \<open>\<^verbatim>\<open>min\<close> and \<^verbatim>\<open>max\<close> return the first best item\<close>

lemma min_loop_first:
  assumes "\<forall>x\<in>set xs. key x = Inr (g x)"
  shows "\<exists>r. min_max_loop (\<lambda>val maxval. val < maxval) key m (g m) xs = Inr r \<and>
     ((r = m \<and> (\<forall>x\<in>set xs. g m \<le> g x)) \<or>
      (\<exists>ys zs. xs = ys @ r # zs \<and> g r < g m \<and> (\<forall>y\<in>set ys. g r < g y) \<and> (\<forall>z\<in>set zs. g r \<le> g z)))"
  using assms
proof (induction xs arbitrary: m)
  case Nil
  then show ?case by simp
next
  case (Cons x xs)
  have kx: "key x = Inr (g x)" and rest: "\<forall>x\<in>set xs. key x = Inr (g x)"
    using Cons.prems by simp_all
  show ?case
  proof (cases "g x < g m")
    case True
    from Cons.IH [OF rest, of x] obtain r where
      run: "min_max_loop (\<lambda>val maxval. val < maxval) key x (g x) xs = Inr r" and
      alt: "(r = x \<and> (\<forall>y\<in>set xs. g x \<le> g y)) \<or>
        (\<exists>ys zs. xs = ys @ r # zs \<and> g r < g x \<and> (\<forall>y\<in>set ys. g r < g y) \<and> (\<forall>z\<in>set zs. g r \<le> g z))"
      by blast
    from alt have "\<exists>ys zs. x # xs = ys @ r # zs \<and> g r < g m \<and> (\<forall>y\<in>set ys. g r < g y) \<and> (\<forall>z\<in>set zs. g r \<le> g z)"
    proof
      assume a: "r = x \<and> (\<forall>y\<in>set xs. g x \<le> g y)"
      then have "x # xs = [] @ r # xs \<and> g r < g m \<and> (\<forall>y\<in>set []. g r < g y) \<and> (\<forall>z\<in>set xs. g r \<le> g z)"
        using True by simp
      then show ?thesis by blast
    next
      assume "\<exists>ys zs. xs = ys @ r # zs \<and> g r < g x \<and> (\<forall>y\<in>set ys. g r < g y) \<and> (\<forall>z\<in>set zs. g r \<le> g z)"
      then obtain ys zs where b: "xs = ys @ r # zs" "g r < g x" "\<forall>y\<in>set ys. g r < g y" "\<forall>z\<in>set zs. g r \<le> g z"
        by blast
      then have "x # xs = (x # ys) @ r # zs \<and> g r < g m \<and> (\<forall>y\<in>set (x # ys). g r < g y) \<and> (\<forall>z\<in>set zs. g r \<le> g z)"
        using True by auto
      then show ?thesis by blast
    qed
    with run kx True show ?thesis by simp
  next
    case False
    from Cons.IH [OF rest, of m] obtain r where
      run: "min_max_loop (\<lambda>val maxval. val < maxval) key m (g m) xs = Inr r" and
      alt: "(r = m \<and> (\<forall>y\<in>set xs. g m \<le> g y)) \<or>
        (\<exists>ys zs. xs = ys @ r # zs \<and> g r < g m \<and> (\<forall>y\<in>set ys. g r < g y) \<and> (\<forall>z\<in>set zs. g r \<le> g z))"
      by blast
    from alt have "(r = m \<and> (\<forall>y\<in>set (x # xs). g m \<le> g y)) \<or>
        (\<exists>ys zs. x # xs = ys @ r # zs \<and> g r < g m \<and> (\<forall>y\<in>set ys. g r < g y) \<and> (\<forall>z\<in>set zs. g r \<le> g z))"
    proof
      assume "r = m \<and> (\<forall>y\<in>set xs. g m \<le> g y)"
      then show ?thesis using False by auto
    next
      assume "\<exists>ys zs. xs = ys @ r # zs \<and> g r < g m \<and> (\<forall>y\<in>set ys. g r < g y) \<and> (\<forall>z\<in>set zs. g r \<le> g z)"
      then obtain ys zs where b: "xs = ys @ r # zs" "g r < g m" "\<forall>y\<in>set ys. g r < g y" "\<forall>z\<in>set zs. g r \<le> g z"
        by blast
      then have "x # xs = (x # ys) @ r # zs \<and> g r < g m \<and> (\<forall>y\<in>set (x # ys). g r < g y) \<and> (\<forall>z\<in>set zs. g r \<le> g z)"
        using False by auto
      then show ?thesis by blast
    qed
    with run kx False show ?thesis by simp
  qed
qed

lemma py_min_first:
  assumes keys: "\<forall>x\<in>set xs. key x = Inr (g x)" and ne: "xs \<noteq> []"
  shows "\<exists>ys r zs. py_min xs key = Inr r \<and> xs = ys @ r # zs \<and>
     (\<forall>y\<in>set ys. g r < g y) \<and> (\<forall>z\<in>set zs. g r \<le> g z)"
proof -
  from ne obtain m rest where xs: "xs = m # rest" by (cases xs) auto
  have km: "key m = Inr (g m)" and kr: "\<forall>x\<in>set rest. key x = Inr (g x)"
    using keys xs by simp_all
  from min_loop_first [OF kr, of m] obtain r where
    run: "min_max_loop (\<lambda>val maxval. val < maxval) key m (g m) rest = Inr r" and
    alt: "(r = m \<and> (\<forall>x\<in>set rest. g m \<le> g x)) \<or>
      (\<exists>ys zs. rest = ys @ r # zs \<and> g r < g m \<and> (\<forall>y\<in>set ys. g r < g y) \<and> (\<forall>z\<in>set zs. g r \<le> g z))"
    by blast
  have res: "py_min xs key = Inr r"
    using run km xs by (simp add: py_min_def min_max_def)
  from alt show ?thesis
  proof
    assume "r = m \<and> (\<forall>x\<in>set rest. g m \<le> g x)"
    then have "xs = [] @ r # rest \<and> (\<forall>y\<in>set []. g r < g y) \<and> (\<forall>z\<in>set rest. g r \<le> g z)"
      using xs by simp
    with res show ?thesis by blast
  next
    assume "\<exists>ys zs. rest = ys @ r # zs \<and> g r < g m \<and> (\<forall>y\<in>set ys. g r < g y) \<and> (\<forall>z\<in>set zs. g r \<le> g z)"
    then obtain ys zs where b: "rest = ys @ r # zs" "g r < g m" "\<forall>y\<in>set ys. g r < g y" "\<forall>z\<in>set zs. g r \<le> g z"
      by blast
    then have "xs = (m # ys) @ r # zs \<and> (\<forall>y\<in>set (m # ys). g r < g y) \<and> (\<forall>z\<in>set zs. g r \<le> g z)"
      using xs by auto
    with res show ?thesis by blast
  qed
qed

lemma max_loop_as_min:
  "min_max_loop (\<lambda>val maxval. val > maxval) key m v xs =
   min_max_loop (\<lambda>val maxval. val < maxval)
     (\<lambda>x. case key x of Inl e \<Rightarrow> Inl e | Inr val \<Rightarrow> Inr (- val)) m (- v) xs"
  by (induction xs arbitrary: m v) (auto split: sum.splits)

lemma py_max_as_min:
  "py_max xs key = py_min xs (\<lambda>x. case key x of Inl e \<Rightarrow> Inl e | Inr val \<Rightarrow> Inr (- val))"
  by (cases xs) (auto simp: py_max_def py_min_def min_max_def max_loop_as_min split: sum.splits)

lemma py_max_first:
  assumes keys: "\<forall>x\<in>set xs. key x = Inr (g x)" and ne: "xs \<noteq> []"
  shows "\<exists>ys r zs. py_max xs key = Inr r \<and> xs = ys @ r # zs \<and>
     (\<forall>y\<in>set ys. g y < g r) \<and> (\<forall>z\<in>set zs. g z \<le> g r)"
proof -
  have "\<forall>x\<in>set xs. (case key x of Inl e \<Rightarrow> Inl e | Inr val \<Rightarrow> Inr (- val)) = Inr (- g x)"
    using keys by simp
  from py_min_first [OF this ne] show ?thesis
    by (simp add: py_max_as_min)
qed

lemma dict_get_entry:
  assumes "distinct (map fst d)" and "(k, v) \<in> set d"
  shows "dict_get d k = Inr v"
  using assms by (simp add: dict_get_def)

lemma py_min_dict_first:
  assumes dist: "distinct (map fst prices)" and ne: "prices \<noteq> []"
  shows "\<exists>before name p after.
     prices = before @ (name, p) # after \<and>
     py_min (dict_keys prices)
       (\<lambda>x. case dict_get prices x of Inl e \<Rightarrow> Inl e | Inr p \<Rightarrow> Inr (f p)) = Inr name \<and> dict_get prices name = Inr p \<and>
     (\<forall>e\<in>set before. f p < f (snd e)) \<and> (\<forall>e\<in>set after. f p \<le> f (snd e))"
proof -
  define g where "g x = f (the (map_of prices x))" for x
  have entry: "g (fst e) = f (snd e)" if "e \<in> set prices" for e
  proof -
    obtain k v where "e = (k, v)" by (cases e)
    then show ?thesis using that dist by (simp add: g_def)
  qed
  have keys: "\<forall>x\<in>set (dict_keys prices).
      (case dict_get prices x of Inl e \<Rightarrow> Inl e | Inr p \<Rightarrow> Inr (f p)) = Inr (g x)"
    using dist by (auto simp: dict_keys_def g_def dict_get_entry)
  have "dict_keys prices \<noteq> []" using ne by (simp add: dict_keys_def)
  from py_min_first [OF keys this] obtain ys r zs where
    res: "py_min (dict_keys prices)
       (\<lambda>x. case dict_get prices x of Inl e \<Rightarrow> Inl e | Inr p \<Rightarrow> Inr (f p)) = Inr r" and
    split: "map fst prices = ys @ r # zs" and
    lt: "\<forall>y\<in>set ys. g r < g y" and le: "\<forall>z\<in>set zs. g r \<le> g z"
    unfolding dict_keys_def by blast
  from split obtain before e after where
    pr: "prices = before @ e # after" and b: "map fst before = ys" and
    e: "fst e = r" and a: "map fst after = zs"
    by (auto simp: map_eq_append_conv map_eq_Cons_conv)
  obtain p where ep: "e = (r, p)" using e by (cases e) auto
  have mem: "(r, p) \<in> set prices" using pr ep by simp
  have gr: "g r = f p" using entry [OF mem] by simp
  have "\<forall>x\<in>set before. f p < f (snd x)"
  proof
    fix x assume x: "x \<in> set before"
    then have "fst x \<in> set ys" using b by auto
    with lt have "g r < g (fst x)" by blast
    moreover have "x \<in> set prices" using x pr by simp
    ultimately show "f p < f (snd x)" using entry gr by simp
  qed
  moreover have "\<forall>x\<in>set after. f p \<le> f (snd x)"
  proof
    fix x assume x: "x \<in> set after"
    then have "fst x \<in> set zs" using a by auto
    with le have "g r \<le> g (fst x)" by blast
    moreover have "x \<in> set prices" using x pr by simp
    ultimately show "f p \<le> f (snd x)" using entry gr by simp
  qed
  moreover have "dict_get prices r = Inr p" using dict_get_entry [OF dist mem] .
  ultimately show ?thesis using pr ep res by blast
qed

lemma lowest_ask_exchange_first:
  assumes "distinct (map fst prices)" and "prices \<noteq> []"
  shows "\<exists>before name p after.
     prices = before @ (name, p) # after \<and>
     lowest_ask_exchange prices = Inr name \<and> dict_get prices name = Inr p \<and>
     (\<forall>e\<in>set before. ask p < ask (snd e)) \<and> (\<forall>e\<in>set after. ask p \<le> ask (snd e))"
  unfolding lowest_ask_exchange_def using py_min_dict_first [OF assms, of ask] .

lemma highest_bid_exchange_first:
  assumes "distinct (map fst prices)" and "prices \<noteq> []"
  shows "\<exists>before name p after.
     prices = before @ (name, p) # after \<and>
     highest_bid_exchange prices = Inr name \<and> dict_get prices name = Inr p \<and>
     (\<forall>e\<in>set before. bid (snd e) < bid p) \<and> (\<forall>e\<in>set after. bid (snd e) \<le> bid p)"
proof -
  have key: "(\<lambda>x. case (case dict_get prices x of Inl e \<Rightarrow> Inl e | Inr p \<Rightarrow> Inr (bid p)) of
                 Inl e \<Rightarrow> Inl e | Inr val \<Rightarrow> Inr (- val)) =
             (\<lambda>x. case dict_get prices x of Inl e \<Rightarrow> Inl e | Inr p \<Rightarrow> Inr (- bid p))"
    by (rule ext) (simp split: sum.splits)
  show ?thesis
    unfolding highest_bid_exchange_def py_max_as_min key
    using py_min_dict_first [OF assms, of "\<lambda>p. - bid p"] by simp
qed

lemma first_min_is_Min:
  assumes "xs = before @ x # after"
    and "\<forall>e\<in>set before. f x < f e" and "\<forall>e\<in>set after. f x \<le> f e"
  shows "Min (f ` set xs) = (f x :: rat)"
proof (rule Min_eqI)
  show "finite (f ` set xs)" by simp
  show "f x \<in> f ` set xs" using assms(1) by simp
  fix y assume "y \<in> f ` set xs"
  then show "f x \<le> y" using assms by auto
qed

lemma first_max_is_Max:
  assumes "xs = before @ x # after"
    and "\<forall>e\<in>set before. f e < f x" and "\<forall>e\<in>set after. f e \<le> f x"
  shows "Max (f ` set xs) = (f x :: rat)"
proof (rule Max_eqI)
  show "finite (f ` set xs)" by simp
  show "f x \<in> f ` set xs" using assms(1) by simp
  fix y assume "y \<in> f ` set xs"
  then show "y \<le> f x" using assms by auto
qed

subsection \<open>The detector\<close>

lemma detect_selected:
  assumes dist: "distinct (map fst prices)" and len: "2 \<le> length prices"
  obtains b1 lo_name lo a1 b2 hi_name hi a2 where
    "prices = b1 @ (lo_name, lo) # a1"
    "\<forall>e\<in>set b1. ask lo < ask (snd e)" "\<forall>e\<in>set a1. ask lo \<le> ask (snd e)"
    "prices = b2 @ (hi_name, hi) # a2"
    "\<forall>e\<in>set b2. bid (snd e) < bid hi" "\<forall>e\<in>set a2. bid (snd e) \<le> bid hi"
    "lowest_ask_exchange prices = Inr lo_name" "highest_bid_exchange prices = Inr hi_name"
    "detect s prices =
       (if 0 < ask lo \<and> ask lo < bid hi then
          (case arbitrage_percent (bid hi) (ask lo) of
             Inl e \<Rightarrow> Inl e
           | Inr percent \<Rightarrow>
               if float_literal (1 / 10) < percent
               then Inr [\<lparr>buy_at = lo_name, sell_at = hi_name, buy_price = ask lo,
                          sell_price = bid hi, profit_percent = percent, symbol = s\<rparr>]
               else Inr [])
        else Inr [])"
proof -
  have ne: "prices \<noteq> []" using len by auto
  from lowest_ask_exchange_first [OF dist ne] obtain b1 lo_name lo a1 where
    lo: "prices = b1 @ (lo_name, lo) # a1" "lowest_ask_exchange prices = Inr lo_name"
      "dict_get prices lo_name = Inr lo"
      "\<forall>e\<in>set b1. ask lo < ask (snd e)" "\<forall>e\<in>set a1. ask lo \<le> ask (snd e)"
    by blast
  from highest_bid_exchange_first [OF dist ne] obtain b2 hi_name hi a2 where
    hi: "prices = b2 @ (hi_name, hi) # a2" "highest_bid_exchange prices = Inr hi_name"
      "dict_get prices hi_name = Inr hi"
      "\<forall>e\<in>set b2. bid (snd e) < bid hi" "\<forall>e\<in>set a2. bid (snd e) \<le> bid hi"
    by blast
  have "detect s prices =
       (if 0 < ask lo \<and> ask lo < bid hi then
          (case arbitrage_percent (bid hi) (ask lo) of
             Inl e \<Rightarrow> Inl e
           | Inr percent \<Rightarrow>
               if float_literal (1 / 10) < percent
               then Inr [\<lparr>buy_at = lo_name, sell_at = hi_name, buy_price = ask lo,
                          sell_price = bid hi, profit_percent = percent, symbol = s\<rparr>]
               else Inr [])
        else Inr [])"
    using len lo(2,3) hi(2,3) by (simp add: detect_def Let_def)
  with lo hi that show ?thesis by blast
qed

lemma dict_set_keys:
  "map fst (dict_set k v d) = (if k \<in> fst ` set d then map fst d else map fst d @ [k])"
  by (induction d) (fastforce+)

lemma dict_set_distinct:
  "distinct (map fst d) \<Longrightarrow> distinct (map fst (dict_set k v d))"
  by (simp add: dict_set_keys)

lemma fetch_prices_distinct:
  "distinct (map fst prices) \<Longrightarrow> distinct (map fst (fetch_prices exs s prices))"
proof (induction exs s prices rule: fetch_prices.induct)
  case (1 s prices)
  then show ?case by simp
next
  case (2 name exchange rest s prices)
  then show ?case
    by (auto simp: dict_set_distinct split: sum.splits option.splits simp del: truthy.simps)
qed

lemma detect_guards:
  assumes "detect s prices = Inr opps" and "opp \<in> set opps"
  shows "0 < buy_price opp \<and> buy_price opp < sell_price opp \<and>
    float_literal (1 / 10) < profit_percent opp"
  using assms
  by (auto simp: detect_def Let_def split: if_splits sum.splits)

lemma detect_at_most_one: "detect s prices = Inr opps \<Longrightarrow> length opps \<le> 1"
  by (auto simp: detect_def Let_def split: if_splits sum.splits)

lemma detect_short: "length prices < 2 \<Longrightarrow> detect s prices = Inr []"
  by (simp add: detect_def)

lemma detect_never_raises:
  assumes "distinct (map fst prices)"
  shows "\<exists>opps. detect s prices = Inr opps"
proof (cases "2 \<le> length prices")
  case True
  from assms True obtain b1 lo_name lo a1 b2 hi_name hi a2 where
    lo: "prices = b1 @ (lo_name, lo) # a1"
      "\<forall>e\<in>set b1. ask lo < ask (snd e)" "\<forall>e\<in>set a1. ask lo \<le> ask (snd e)" and
    hi: "prices = b2 @ (hi_name, hi) # a2"
      "\<forall>e\<in>set b2. bid (snd e) < bid hi" "\<forall>e\<in>set a2. bid (snd e) \<le> bid hi" and
    sel: "lowest_ask_exchange prices = Inr lo_name" "highest_bid_exchange prices = Inr hi_name" and
    res: "detect s prices =
       (if 0 < ask lo \<and> ask lo < bid hi then
          (case arbitrage_percent (bid hi) (ask lo) of
             Inl e \<Rightarrow> Inl e
           | Inr percent \<Rightarrow>
               if float_literal (1 / 10) < percent
               then Inr [\<lparr>buy_at = lo_name, sell_at = hi_name, buy_price = ask lo,
                          sell_price = bid hi, profit_percent = percent, symbol = s\<rparr>]
               else Inr [])
        else Inr [])"
    by (rule detect_selected)
  show ?thesis
  proof (cases "0 < ask lo \<and> ask lo < bid hi")
    case True
    then have "ask lo \<noteq> 0" by simp
    then obtain p where "arbitrage_percent (bid hi) (ask lo) = Inr p"
      using arbitrage_percent_defined by blast
    with res True show ?thesis by simp
  next
    case False
    with res show ?thesis by simp
  qed
next
  case False
  then show ?thesis by (simp add: detect_short)
qed

lemma scan_loop_concat:
  "scan_loop scan_one pairs acc =
     acc @ concat (map (\<lambda>pair. case scan_one pair of Inl e \<Rightarrow> [] | Inr opps \<Rightarrow> opps) pairs)"
  by (induction pairs arbitrary: acc) (auto split: sum.splits)

lemma get_arbitrage_opportunities_at_most_one:
  "length (get_arbitrage_opportunities exs s) \<le> 1"
  using detect_at_most_one [of s "fetch_prices exs s []"]
  by (simp add: get_arbitrage_opportunities_def split: sum.splits)

lemma uminus_le_uminus: "- a \<le> - b \<longleftrightarrow> b \<le> (a :: pyfloat)"
  by (cases a; cases b) auto

lemma rank_sorted:
  "sorted_wrt (\<lambda>a b. profit_percent b \<le> profit_percent a) (rank_opportunities xs)"
proof -
  have "sorted (map (\<lambda>x. - profit_percent x) (sort_key (\<lambda>x. - profit_percent x) xs))"
    by (rule sorted_sort_key)
  then have "sorted_wrt (\<lambda>a b. profit_percent b \<le> profit_percent a) (sort_key (\<lambda>x. - profit_percent x) xs)"
    by (simp add: sorted_wrt_map uminus_le_uminus)
  then show ?thesis
    unfolding rank_opportunities_def by (rule sorted_wrt_take)
qed

lemma rank_length: "length (rank_opportunities xs) = min 5 (length xs)"
  by (simp add: rank_opportunities_def)

subsection \<open>Empty results, fetching and the scanner\<close>

lemma detect_no_positive_spread:
  assumes dist: "distinct (map fst prices)"
    and le: "Max ((bid \<circ> snd) ` set prices) \<le> Min ((ask \<circ> snd) ` set prices)"
  shows "detect s prices = Inr []"
proof (cases "2 \<le> length prices")
  case True
  from dist True obtain b1 lo_name lo a1 b2 hi_name hi a2 where
    lo: "prices = b1 @ (lo_name, lo) # a1"
      "\<forall>e\<in>set b1. ask lo < ask (snd e)" "\<forall>e\<in>set a1. ask lo \<le> ask (snd e)" and
    hi: "prices = b2 @ (hi_name, hi) # a2"
      "\<forall>e\<in>set b2. bid (snd e) < bid hi" "\<forall>e\<in>set a2. bid (snd e) \<le> bid hi" and
    sel: "lowest_ask_exchange prices = Inr lo_name" "highest_bid_exchange prices = Inr hi_name" and
    res: "detect s prices =
       (if 0 < ask lo \<and> ask lo < bid hi then
          (case arbitrage_percent (bid hi) (ask lo) of
             Inl e \<Rightarrow> Inl e
           | Inr percent \<Rightarrow>
               if float_literal (1 / 10) < percent
               then Inr [\<lparr>buy_at = lo_name, sell_at = hi_name, buy_price = ask lo,
                          sell_price = bid hi, profit_percent = percent, symbol = s\<rparr>]
               else Inr [])
        else Inr [])"
    by (rule detect_selected)
  have mn: "Min ((ask \<circ> snd) ` set prices) = ask lo"
    using first_min_is_Min [of prices b1 "(lo_name, lo)" a1 "ask \<circ> snd"] lo by simp
  have mx: "Max ((bid \<circ> snd) ` set prices) = bid hi"
    using first_max_is_Max [of prices b2 "(hi_name, hi)" a2 "bid \<circ> snd"] hi by simp
  have "\<not> ask lo < bid hi" using le mn mx by simp
  with res show ?thesis by simp
next
  case False
  then show ?thesis by (simp add: detect_short)
qed

lemma detect_below_threshold:
  assumes dist: "distinct (map fst prices)"
    and run: "arbitrage_percent (Max ((bid \<circ> snd) ` set prices))
                (Min ((ask \<circ> snd) ` set prices)) = Inr p"
    and le: "p \<le> float_literal (1 / 10)"
  shows "detect s prices = Inr []"
proof (cases "2 \<le> length prices")
  case True
  from dist True obtain b1 lo_name lo a1 b2 hi_name hi a2 where
    lo: "prices = b1 @ (lo_name, lo) # a1"
      "\<forall>e\<in>set b1. ask lo < ask (snd e)" "\<forall>e\<in>set a1. ask lo \<le> ask (snd e)" and
    hi: "prices = b2 @ (hi_name, hi) # a2"
      "\<forall>e\<in>set b2. bid (snd e) < bid hi" "\<forall>e\<in>set a2. bid (snd e) \<le> bid hi" and
    sel: "lowest_ask_exchange prices = Inr lo_name" "highest_bid_exchange prices = Inr hi_name" and
    res: "detect s prices =
       (if 0 < ask lo \<and> ask lo < bid hi then
          (case arbitrage_percent (bid hi) (ask lo) of
             Inl e \<Rightarrow> Inl e
           | Inr percent \<Rightarrow>
               if float_literal (1 / 10) < percent
               then Inr [\<lparr>buy_at = lo_name, sell_at = hi_name, buy_price = ask lo,
                          sell_price = bid hi, profit_percent = percent, symbol = s\<rparr>]
               else Inr [])
        else Inr [])"
    by (rule detect_selected)
  have mn: "Min ((ask \<circ> snd) ` set prices) = ask lo"
    using first_min_is_Min [of prices b1 "(lo_name, lo)" a1 "ask \<circ> snd"] lo by simp
  have mx: "Max ((bid \<circ> snd) ` set prices) = bid hi"
    using first_max_is_Max [of prices b2 "(hi_name, hi)" a2 "bid \<circ> snd"] hi by simp
  have "arbitrage_percent (bid hi) (ask lo) = Inr p" using run unfolding mn mx .
  moreover have "\<not> float_literal (1 / 10) < p" using le by simp
  ultimately show ?thesis using res by simp
next
  case False
  then show ?thesis by (simp add: detect_short)
qed

lemma get_arbitrage_opportunities_mem:
  assumes "opp \<in> set (get_arbitrage_opportunities exs s)"
  shows "\<exists>opps. detect s (fetch_prices exs s []) = Inr opps \<and> opp \<in> set opps"
  using assms
  by (cases "detect s (fetch_prices exs s [])") (simp_all add: get_arbitrage_opportunities_def)

lemma get_arbitrage_opportunities_empty:
  "detect s (fetch_prices exs s []) = Inr [] \<Longrightarrow> get_arbitrage_opportunities exs s = []"
  by (simp add: get_arbitrage_opportunities_def)

lemma concat_length_bound:
  "(\<And>p. length (f p) \<le> 1) \<Longrightarrow> length (concat (map f ps)) \<le> length ps"
proof (induction ps)
  case Nil
  then show ?case by simp
next
  case (Cons p ps)
  have "length (f p) \<le> 1" by (rule Cons.prems)
  moreover have "length (concat (map f ps)) \<le> length ps"
    by (rule Cons.IH) (rule Cons.prems)
  ultimately show ?case by simp
qed

lemma scan_gathered:
  "scan_loop (\<lambda>pair. Inr (get_arbitrage_opportunities exs pair)) pairs [] =
     concat (map (get_arbitrage_opportunities exs) pairs)"
  by (simp add: scan_loop_concat)

lemma scan_multiple_pairs_set:
  "set (scan_multiple_pairs exs) =
     (\<Union>pair\<in>set common_pairs. set (get_arbitrage_opportunities exs pair))"
proof -
  let ?all = "concat (map (get_arbitrage_opportunities exs) common_pairs)"
  have "length ?all \<le> length common_pairs"
    by (rule concat_length_bound) (rule get_arbitrage_opportunities_at_most_one)
  then have "length ?all \<le> 5" by (simp add: common_pairs_def)
  then have "rank_opportunities ?all = sort_key (\<lambda>x. - profit_percent x) ?all"
    by (simp add: rank_opportunities_def)
  then have "set (scan_multiple_pairs exs) = set ?all"
    by (simp add: scan_multiple_pairs_def scan_gathered)
  then show ?thesis by simp
qed

lemma fetch_prices_all_fail:
  "\<forall>ex\<in>snd ` set exs. \<exists>e. ex s = Inl e \<Longrightarrow> fetch_prices exs s prices = prices"
proof (induction exs s prices rule: fetch_prices.induct)
  case (1 s prices)
  then show ?case by simp
next
  case (2 name exchange rest s prices)
  from "2.prems" obtain e where e: "exchange s = Inl e" by auto
  from "2.prems" have rest: "\<forall>ex\<in>snd ` set rest. \<exists>e. ex s = Inl e" by simp
  from "2.IH"(1) [OF e rest] e show ?case by simp
qed

subsection \<open>The example inputs evaluated\<close>

lemma float_half: "float_literal (1 / 2) = Finite (1 / 2)"
  by (simp add: float_literal_def fl_eval)

lemma detect_spread_prices:
  "detect s spread_prices =
     Inr [\<lparr>buy_at = ''binance'', sell_at = ''kucoin'', buy_price = 50010, sell_price = 50200,
           profit_percent = Finite (3422051306540269 / 9007199254740992), symbol = s\<rparr>]"
  by (simp add: spread_prices_def detect_eval spread_percent float_tenth)

lemma fetch_spread_exchanges:
  "fetch_prices spread_exchanges ''BTC/USDT'' [] = spread_prices"
  by (simp add: spread_exchanges_def spread_prices_def quoting_def)

lemma get_spread_exchanges:
  "get_arbitrage_opportunities spread_exchanges ''BTC/USDT'' =
     [\<lparr>buy_at = ''binance'', sell_at = ''kucoin'', buy_price = 50010, sell_price = 50200,
           profit_percent = Finite (3422051306540269 / 9007199254740992), symbol = ''BTC/USDT''\<rparr>]"
  by (simp add: get_arbitrage_opportunities_def fetch_spread_exchanges detect_spread_prices)

lemma get_spread_exchanges_other:
  "pair \<noteq> ''BTC/USDT'' \<Longrightarrow> get_arbitrage_opportunities spread_exchanges pair = []"
  by (simp add: get_arbitrage_opportunities_def spread_exchanges_def quoting_def detect_short)

lemma scan_spread_exchanges:
  "scan_multiple_pairs spread_exchanges =
     [\<lparr>buy_at = ''binance'', sell_at = ''kucoin'', buy_price = 50010, sell_price = 50200,
           profit_percent = Finite (3422051306540269 / 9007199254740992), symbol = ''BTC/USDT''\<rparr>]"
  by (simp add: scan_multiple_pairs_def common_pairs_def rank_opportunities_def
      get_spread_exchanges get_spread_exchanges_other)

lemma detect_rounding_prices: "detect s rounding_prices = Inr []"
  by (simp add: rounding_prices_def detect_eval rounding_percent float_tenth)

lemma fetch_rounding_exchanges:
  "fetch_prices rounding_exchanges ''BTC/USDT'' [] = rounding_prices"
  by (simp add: rounding_exchanges_def rounding_prices_def quoting_def)

section \<open>The claims\<close>

text \<open>
  Claim C1 takes the implied percentage as the number \<open>(max_bid - min_ask) / min_ask * 100\<close>.
  The code computes it in binary64 arithmetic, and the rounding can move it onto the
  threshold: with A quoting 1 / 7999999999999999 and B quoting
  8007999999999999 / 8008000000000000 (bid / ask) the exact percentage is above one tenth,
  the computed one is the float \<^verbatim>\<open>0.1\<close> itself, and no opportunity is returned.
\<close>

theorem exact_percentage_counterexample:
  "2 \<le> length rounding_prices \<and>
   Min ((ask \<circ> snd) ` set rounding_prices) = 7999999999999999 \<and>
   Max ((bid \<circ> snd) ` set rounding_prices) = 8007999999999999 \<and>
   (7999999999999999 :: rat) < 8007999999999999 \<and>
   (1 / 10 :: rat) < (8007999999999999 - 7999999999999999) / 7999999999999999 * 100 \<and>
   arbitrage_percent 8007999999999999 7999999999999999 = Inr (Finite (3602879701896397 / 36028797018963968)) \<and>
   float_literal (1 / 10) = Finite (3602879701896397 / 36028797018963968) \<and>
   detect ''BTC/USDT'' rounding_prices = Inr [] \<and>
   fetch_prices rounding_exchanges ''BTC/USDT'' [] = rounding_prices \<and>
   get_arbitrage_opportunities rounding_exchanges ''BTC/USDT'' = []"
proof -
  have len: "2 \<le> length rounding_prices" by (simp add: rounding_prices_def)
  have mn: "Min ((ask \<circ> snd) ` set rounding_prices) = 7999999999999999"
    by (simp add: rounding_prices_def)
  have mx: "Max ((bid \<circ> snd) ` set rounding_prices) = 8007999999999999"
    by (simp add: rounding_prices_def)
  have lt: "(7999999999999999 :: rat) < 8007999999999999" by simp
  have exact: "(1 / 10 :: rat) < (8007999999999999 - 7999999999999999) / 7999999999999999 * 100"
    by simp
  have got: "get_arbitrage_opportunities rounding_exchanges ''BTC/USDT'' = []"
    by (simp add: get_arbitrage_opportunities_def fetch_rounding_exchanges detect_rounding_prices)
  from len mn mx lt exact rounding_percent float_tenth detect_rounding_prices
    fetch_rounding_exchanges got
  show ?thesis by (intro conjI)
qed

text \<open>
  Claim C1 as amended. On a price dictionary with at least two entries whose highest bid
  exceeds its lowest ask and whose percentage, as line 62 computes it in binary64 arithmetic,
  exceeds the float \<^verbatim>\<open>0.1\<close> of line 64, the detector returns one opportunity: its
  \<open>profit_percent\<close> is that computed percentage, its \<open>buy_price\<close> the lowest ask, its
  \<open>sell_price\<close> the highest bid; \<^verbatim>\<open>get_arbitrage_opportunities\<close> returns it for the
  dictionary it fetched. On the quotes binance 50000/50010 and kucoin 50200/50220 it buys at
  binance at 50010 and sells at kucoin at 50200; the profit is the float
  \<^verbatim>\<open>0.3799240151969606\<close>, which rounds to 0.380 percent and is within \<open>1 / 10 ^ 15\<close> of the
  exact percentage.
\<close>

theorem detect_best_spread:
  "(\<forall>symbol' prices percent.
      distinct (map fst prices) \<and> 2 \<le> length prices \<and>
      Min ((ask \<circ> snd) ` set prices) < Max ((bid \<circ> snd) ` set prices) \<and>
      arbitrage_percent (Max ((bid \<circ> snd) ` set prices))
        (Min ((ask \<circ> snd) ` set prices)) = Inr percent \<and>
      float_literal (1 / 10) < percent \<longrightarrow>
      (\<exists>opp. detect symbol' prices = Inr [opp] \<and>
         profit_percent opp = percent \<and>
         buy_price opp = Min ((ask \<circ> snd) ` set prices) \<and>
         sell_price opp = Max ((bid \<circ> snd) ` set prices) \<and>
         symbol opp = symbol')) \<and>
   (\<forall>exs symbol' percent.
      2 \<le> length (fetch_prices exs symbol' []) \<and>
      Min ((ask \<circ> snd) ` set (fetch_prices exs symbol' [])) < Max ((bid \<circ> snd) ` set (fetch_prices exs symbol' [])) \<and>
      arbitrage_percent (Max ((bid \<circ> snd) ` set (fetch_prices exs symbol' [])))
        (Min ((ask \<circ> snd) ` set (fetch_prices exs symbol' []))) = Inr percent \<and>
      float_literal (1 / 10) < percent \<longrightarrow>
      (\<exists>opp. get_arbitrage_opportunities exs symbol' = [opp] \<and>
         profit_percent opp = percent \<and>
         buy_price opp = Min ((ask \<circ> snd) ` set (fetch_prices exs symbol' [])) \<and>
         sell_price opp = Max ((bid \<circ> snd) ` set (fetch_prices exs symbol' [])) \<and>
         symbol opp = symbol')) \<and>
   (\<forall>symbol' l1 l2.
      detect symbol'
        [(''binance'', \<lparr>bid = 50000, ask = 50010, last_price = l1\<rparr>),
         (''kucoin'', \<lparr>bid = 50200, ask = 50220, last_price = l2\<rparr>)] =
      Inr [\<lparr>buy_at = ''binance'', sell_at = ''kucoin'', buy_price = 50010, sell_price = 50200,
            profit_percent = Finite (3422051306540269 / 9007199254740992), symbol = symbol'\<rparr>]) \<and>
   \<bar>3422051306540269 / 9007199254740992 - 380 / 1000\<bar> < (1 / 2000 :: rat) \<and>
   \<bar>3422051306540269 / 9007199254740992 - (50200 - 50010) / 50010 * 100\<bar>
     < (1 / 10 ^ 15 :: rat)"
proof -
  have general: "(\<exists>opp. detect symbol' prices = Inr [opp] \<and>
         profit_percent opp = percent \<and>
         buy_price opp = Min ((ask \<circ> snd) ` set prices) \<and>
         sell_price opp = Max ((bid \<circ> snd) ` set prices) \<and>
         symbol opp = symbol')"
    if h: "distinct (map fst prices) \<and> 2 \<le> length prices \<and>
      Min ((ask \<circ> snd) ` set prices) < Max ((bid \<circ> snd) ` set prices) \<and>
      arbitrage_percent (Max ((bid \<circ> snd) ` set prices))
        (Min ((ask \<circ> snd) ` set prices)) = Inr percent \<and>
      float_literal (1 / 10) < percent"
    for symbol' :: string and prices :: prices and percent
  proof -
    from h have dist: "distinct (map fst prices)" and len: "2 \<le> length prices" by simp_all
    from dist len obtain b1 lo_name lo a1 b2 hi_name hi a2 where
      lo: "prices = b1 @ (lo_name, lo) # a1"
        "\<forall>e\<in>set b1. ask lo < ask (snd e)" "\<forall>e\<in>set a1. ask lo \<le> ask (snd e)" and
      hi: "prices = b2 @ (hi_name, hi) # a2"
        "\<forall>e\<in>set b2. bid (snd e) < bid hi" "\<forall>e\<in>set a2. bid (snd e) \<le> bid hi" and
      sel: "lowest_ask_exchange prices = Inr lo_name" "highest_bid_exchange prices = Inr hi_name" and
      res: "detect symbol' prices =
       (if 0 < ask lo \<and> ask lo < bid hi then
          (case arbitrage_percent (bid hi) (ask lo) of
             Inl e \<Rightarrow> Inl e
           | Inr percent \<Rightarrow>
               if float_literal (1 / 10) < percent
               then Inr [\<lparr>buy_at = lo_name, sell_at = hi_name, buy_price = ask lo,
                          sell_price = bid hi, profit_percent = percent, symbol = symbol'\<rparr>]
               else Inr [])
        else Inr [])"
      by (rule detect_selected)
    have mn: "Min ((ask \<circ> snd) ` set prices) = ask lo"
      using first_min_is_Min [of prices b1 "(lo_name, lo)" a1 "ask \<circ> snd"] lo by simp
    have mx: "Max ((bid \<circ> snd) ` set prices) = bid hi"
      using first_max_is_Max [of prices b2 "(hi_name, hi)" a2 "bid \<circ> snd"] hi by simp
    have gt: "ask lo < bid hi" and run: "arbitrage_percent (bid hi) (ask lo) = Inr percent"
      and above: "float_literal (1 / 10) < percent"
      using h unfolding mn mx by simp_all
    have pos: "0 < ask lo"
      using gt run above by (rule arbitrage_percent_needs_positive_ask)
    show ?thesis
      unfolding mn mx using res pos gt run above by simp
  qed
  have fetched: "(\<exists>opp. get_arbitrage_opportunities exs symbol' = [opp] \<and>
         profit_percent opp = percent \<and>
         buy_price opp = Min ((ask \<circ> snd) ` set (fetch_prices exs symbol' [])) \<and>
         sell_price opp = Max ((bid \<circ> snd) ` set (fetch_prices exs symbol' [])) \<and>
         symbol opp = symbol')"
    if h: "2 \<le> length (fetch_prices exs symbol' []) \<and>
      Min ((ask \<circ> snd) ` set (fetch_prices exs symbol' [])) < Max ((bid \<circ> snd) ` set (fetch_prices exs symbol' [])) \<and>
      arbitrage_percent (Max ((bid \<circ> snd) ` set (fetch_prices exs symbol' [])))
        (Min ((ask \<circ> snd) ` set (fetch_prices exs symbol' []))) = Inr percent \<and>
      float_literal (1 / 10) < percent"
    for exs :: exchanges and symbol' :: string and percent
  proof -
    have "distinct (map fst (fetch_prices exs symbol' []))"
      by (rule fetch_prices_distinct) simp
    with h have "distinct (map fst (fetch_prices exs symbol' [])) \<and>
      2 \<le> length (fetch_prices exs symbol' []) \<and>
      Min ((ask \<circ> snd) ` set (fetch_prices exs symbol' [])) < Max ((bid \<circ> snd) ` set (fetch_prices exs symbol' [])) \<and>
      arbitrage_percent (Max ((bid \<circ> snd) ` set (fetch_prices exs symbol' [])))
        (Min ((ask \<circ> snd) ` set (fetch_prices exs symbol' []))) = Inr percent \<and>
      float_literal (1 / 10) < percent"
      by simp
    from general [OF this] obtain opp where
      "detect symbol' (fetch_prices exs symbol' []) = Inr [opp]"
      "profit_percent opp = percent"
      "buy_price opp = Min ((ask \<circ> snd) ` set (fetch_prices exs symbol' []))"
      "sell_price opp = Max ((bid \<circ> snd) ` set (fetch_prices exs symbol' []))"
      "symbol opp = symbol'"
      by blast
    then show ?thesis
      by (simp add: get_arbitrage_opportunities_def)
  qed
  have example: "detect symbol'
        [(''binance'', \<lparr>bid = 50000, ask = 50010, last_price = l1\<rparr>),
         (''kucoin'', \<lparr>bid = 50200, ask = 50220, last_price = l2\<rparr>)] =
      Inr [\<lparr>buy_at = ''binance'', sell_at = ''kucoin'', buy_price = 50010, sell_price = 50200,
            profit_percent = Finite (3422051306540269 / 9007199254740992), symbol = symbol'\<rparr>]" for symbol' l1 l2
    by (simp add: detect_eval spread_percent float_tenth)
  have near: "\<bar>3422051306540269 / 9007199254740992 - 380 / 1000\<bar> < (1 / 2000 :: rat)"
    by simp
  have exact: "\<bar>3422051306540269 / 9007199254740992 - (50200 - 50010) / 50010 * 100\<bar>
     < (1 / 10 ^ 15 :: rat)"
    by simp
  from general fetched example near exact show ?thesis by blast
qed

theorem detect_best_spread_witness:
  "distinct (map fst spread_prices) \<and> 2 \<le> length spread_prices \<and>
   Min ((ask \<circ> snd) ` set spread_prices) = 50010 \<and>
   Max ((bid \<circ> snd) ` set spread_prices) = 50200 \<and>
   arbitrage_percent 50200 50010 = Inr (Finite (3422051306540269 / 9007199254740992)) \<and>
   float_literal (1 / 10) < Finite (3422051306540269 / 9007199254740992) \<and>
   (\<exists>opp. detect ''BTC/USDT'' spread_prices = Inr [opp] \<and>
      profit_percent opp = Finite (3422051306540269 / 9007199254740992) \<and>
      buy_price opp = 50010 \<and> sell_price opp = 50200 \<and> symbol opp = ''BTC/USDT'') \<and>
   (\<exists>opp. get_arbitrage_opportunities spread_exchanges ''BTC/USDT'' = [opp] \<and>
      profit_percent opp = Finite (3422051306540269 / 9007199254740992) \<and>
      buy_price opp = 50010 \<and> sell_price opp = 50200 \<and> symbol opp = ''BTC/USDT'')"
proof -
  let ?p = "Finite (3422051306540269 / 9007199254740992)"
  have d: "distinct (map fst spread_prices)" and l: "2 \<le> length spread_prices"
    by (simp_all add: spread_prices_def)
  have mn: "Min ((ask \<circ> snd) ` set spread_prices) = 50010"
    by (simp add: spread_prices_def)
  have mx: "Max ((bid \<circ> snd) ` set spread_prices) = 50200"
    by (simp add: spread_prices_def)
  have above: "float_literal (1 / 10) < ?p" by (simp add: float_tenth)
  have hyp: "distinct (map fst spread_prices) \<and> 2 \<le> length spread_prices \<and>
      Min ((ask \<circ> snd) ` set spread_prices) < Max ((bid \<circ> snd) ` set spread_prices) \<and>
      arbitrage_percent (Max ((bid \<circ> snd) ` set spread_prices))
        (Min ((ask \<circ> snd) ` set spread_prices)) = Inr ?p \<and>
      float_literal (1 / 10) < ?p"
    unfolding mn mx using d l spread_percent above by simp
  have hyp': "2 \<le> length (fetch_prices spread_exchanges ''BTC/USDT'' []) \<and>
      Min ((ask \<circ> snd) ` set (fetch_prices spread_exchanges ''BTC/USDT'' []))
        < Max ((bid \<circ> snd) ` set (fetch_prices spread_exchanges ''BTC/USDT'' [])) \<and>
      arbitrage_percent (Max ((bid \<circ> snd) ` set (fetch_prices spread_exchanges ''BTC/USDT'' [])))
        (Min ((ask \<circ> snd) ` set (fetch_prices spread_exchanges ''BTC/USDT'' []))) = Inr ?p \<and>
      float_literal (1 / 10) < ?p"
    unfolding fetch_spread_exchanges mn mx using l spread_percent above by simp
  note a = detect_best_spread [THEN conjunct1, rule_format,
      of spread_prices ?p "''BTC/USDT''", OF hyp]
  note b = detect_best_spread [THEN conjunct2, THEN conjunct1, rule_format,
      of spread_exchanges "''BTC/USDT''" ?p, OF hyp']
  from a [unfolded mn mx] b [unfolded fetch_spread_exchanges mn mx] d l mn mx spread_percent above
  show ?thesis by (intro conjI)
qed

text \<open>
  Claim C2. Every opportunity the detector emits, on any price dictionary and through
  \<^verbatim>\<open>get_arbitrage_opportunities\<close> on any exchanges, has
  \<open>sell_price > buy_price > 0\<close>: the guard of line 61.
\<close>

theorem emitted_prices_ordered:
  "(detect symbol' prices = Inr opps \<longrightarrow>
      (\<forall>opp\<in>set opps. 0 < buy_price opp \<and> buy_price opp < sell_price opp)) \<and>
   (\<forall>opp\<in>set (get_arbitrage_opportunities exs symbol').
      0 < buy_price opp \<and> buy_price opp < sell_price opp)"
proof (intro conjI impI ballI)
  fix opp
  assume "detect symbol' prices = Inr opps" and "opp \<in> set opps"
  then show "0 < buy_price opp" and "buy_price opp < sell_price opp"
    using detect_guards by blast+
next
  fix opp
  assume mem: "opp \<in> set (get_arbitrage_opportunities exs symbol')"
  then obtain opps where "detect symbol' (fetch_prices exs symbol' []) = Inr opps" "opp \<in> set opps"
    using get_arbitrage_opportunities_mem by blast
  then show "0 < buy_price opp" and "buy_price opp < sell_price opp"
    using detect_guards by blast+
qed

theorem emitted_prices_ordered_witness:
  "(\<exists>opp. detect ''BTC/USDT'' spread_prices = Inr [opp] \<and>
      0 < buy_price opp \<and> buy_price opp < sell_price opp) \<and>
   (\<exists>opp. get_arbitrage_opportunities spread_exchanges ''BTC/USDT'' = [opp] \<and>
      0 < buy_price opp \<and> buy_price opp < sell_price opp)"
proof -
  let ?opp = "\<lparr>buy_at = ''binance'', sell_at = ''kucoin'', buy_price = 50010, sell_price = 50200,
           profit_percent = Finite (3422051306540269 / 9007199254740992), symbol = ''BTC/USDT''\<rparr>"
  have run: "detect ''BTC/USDT'' spread_prices = Inr [?opp]"
    by (rule detect_spread_prices)
  have got: "get_arbitrage_opportunities spread_exchanges ''BTC/USDT'' = [?opp]"
    by (rule get_spread_exchanges)
  note inst = emitted_prices_ordered [of "''BTC/USDT''" spread_prices "[?opp]" spread_exchanges]
  from inst [THEN conjunct1, THEN mp, OF run]
  have a: "0 < buy_price ?opp \<and> buy_price ?opp < sell_price ?opp"
    by simp
  from inst [THEN conjunct2] got
  have b: "0 < buy_price ?opp \<and> buy_price ?opp < sell_price ?opp"
    by simp
  from run a got b show ?thesis by blast
qed

text \<open>
  Claim C3. When the highest bid of the price dictionary is at most its lowest ask, the
  detector ends normally with no opportunity (\<open>Inr []\<close>, no exception), and so
  \<^verbatim>\<open>get_arbitrage_opportunities\<close> returns the empty list.
\<close>

theorem no_spread_no_opportunity:
  "(distinct (map fst prices) \<and>
    Max ((bid \<circ> snd) ` set prices) \<le> Min ((ask \<circ> snd) ` set prices) \<longrightarrow>
      detect symbol' prices = Inr []) \<and>
   (Max ((bid \<circ> snd) ` set (fetch_prices exs symbol' []))
      \<le> Min ((ask \<circ> snd) ` set (fetch_prices exs symbol' [])) \<longrightarrow>
      get_arbitrage_opportunities exs symbol' = [])"
proof (intro conjI impI)
  assume "distinct (map fst prices) \<and>
    Max ((bid \<circ> snd) ` set prices) \<le> Min ((ask \<circ> snd) ` set prices)"
  then show "detect symbol' prices = Inr []"
    using detect_no_positive_spread by blast
next
  assume le: "Max ((bid \<circ> snd) ` set (fetch_prices exs symbol' []))
      \<le> Min ((ask \<circ> snd) ` set (fetch_prices exs symbol' []))"
  have "distinct (map fst (fetch_prices exs symbol' []))"
    by (rule fetch_prices_distinct) simp
  from detect_no_positive_spread [OF this le]
  show "get_arbitrage_opportunities exs symbol' = []"
    by (rule get_arbitrage_opportunities_empty)
qed

theorem no_spread_no_opportunity_witness:
  "distinct (map fst flat_prices) \<and>
   Max ((bid \<circ> snd) ` set flat_prices) = 7040392854975283 / 70368744177664 \<and>
   Min ((ask \<circ> snd) ` set flat_prices) = 3550103143763149 / 35184372088832 \<and>
   detect ''BTC/USDT'' flat_prices = Inr [] \<and>
   fetch_prices flat_exchanges ''BTC/USDT'' [] =
     [(''binance'', \<lparr>bid = 100, ask = 101, last_price = None\<rparr>),
      (''kucoin'', \<lparr>bid = 7040392854975283 / 70368744177664, ask = 3550103143763149 / 35184372088832, last_price = None\<rparr>)] \<and>
   get_arbitrage_opportunities flat_exchanges ''BTC/USDT'' = []"
proof -
  have d: "distinct (map fst flat_prices)" by (simp add: flat_prices_def)
  have mx: "Max ((bid \<circ> snd) ` set flat_prices) = 7040392854975283 / 70368744177664"
    by (simp add: flat_prices_def)
  have mn: "Min ((ask \<circ> snd) ` set flat_prices) = 3550103143763149 / 35184372088832"
    by (simp add: flat_prices_def)
  have le: "Max ((bid \<circ> snd) ` set flat_prices) \<le> Min ((ask \<circ> snd) ` set flat_prices)"
    unfolding mx mn by simp
  have f: "fetch_prices flat_exchanges ''BTC/USDT'' [] =
     [(''binance'', \<lparr>bid = 100, ask = 101, last_price = None\<rparr>),
      (''kucoin'', \<lparr>bid = 7040392854975283 / 70368744177664, ask = 3550103143763149 / 35184372088832, last_price = None\<rparr>)]"
    by (simp add: flat_exchanges_def quoting_def)
  have le': "Max ((bid \<circ> snd) ` set (fetch_prices flat_exchanges ''BTC/USDT'' []))
      \<le> Min ((ask \<circ> snd) ` set (fetch_prices flat_exchanges ''BTC/USDT'' []))"
    unfolding f by simp
  note inst = no_spread_no_opportunity [of flat_prices "''BTC/USDT''" flat_exchanges]
  from inst [THEN conjunct1, rule_format, OF conjI [OF d le]]
    inst [THEN conjunct2, rule_format, OF le'] d mx mn f
  show ?thesis by (intro conjI)
qed

text \<open>
  Claim C4. With fewer than two entries in the price dictionary the detector ends normally
  with no opportunity (\<open>Inr []\<close>, no exception), and \<^verbatim>\<open>get_arbitrage_opportunities\<close>
  returns the empty list.
\<close>

theorem too_few_quotes_no_opportunity:
  "(length prices < 2 \<longrightarrow> detect symbol' prices = Inr []) \<and>
   (length (fetch_prices exs symbol' []) < 2 \<longrightarrow> get_arbitrage_opportunities exs symbol' = [])"
  by (simp add: detect_short get_arbitrage_opportunities_empty)

theorem too_few_quotes_no_opportunity_witness:
  "length single_prices < 2 \<and> detect ''BTC/USDT'' single_prices = Inr [] \<and>
   length (fetch_prices half_down_exchanges ''BTC/USDT'' []) < 2 \<and>
   get_arbitrage_opportunities half_down_exchanges ''BTC/USDT'' = [] \<and>
   length ([] :: prices) < 2 \<and> detect ''BTC/USDT'' [] = Inr []"
proof -
  have l1: "length single_prices < 2" by (simp add: single_prices_def)
  have l2: "length (fetch_prices half_down_exchanges ''BTC/USDT'' []) < 2"
    by (simp add: half_down_exchanges_def quoting_def unreachable_def)
  have l3: "length ([] :: prices) < 2" by simp
  from too_few_quotes_no_opportunity [of single_prices "''BTC/USDT''" half_down_exchanges,
      THEN conjunct1, rule_format, OF l1]
    too_few_quotes_no_opportunity [of single_prices "''BTC/USDT''" half_down_exchanges,
      THEN conjunct2, rule_format, OF l2]
    too_few_quotes_no_opportunity [of "[]" "''BTC/USDT''" half_down_exchanges,
      THEN conjunct1, rule_format, OF l3] l1 l2 l3
  show ?thesis by (intro conjI)
qed

text \<open>
  Claim C5 calls the threshold configurable. It is not: the method takes the symbol only and
  line 64 compares with the literal \<^verbatim>\<open>0.1\<close>. Where the claim, with a threshold set to 0.5,
  allows no opportunity of 0.38 percent, the method returns one.
\<close>

theorem threshold_not_configurable_counterexample:
  "get_arbitrage_opportunities spread_exchanges ''BTC/USDT'' =
     [\<lparr>buy_at = ''binance'', sell_at = ''kucoin'', buy_price = 50010, sell_price = 50200,
           profit_percent = Finite (3422051306540269 / 9007199254740992), symbol = ''BTC/USDT''\<rparr>] \<and>
   float_literal (1 / 2) = Finite (1 / 2) \<and>
   Finite (3422051306540269 / 9007199254740992) \<le> float_literal (1 / 2)"
proof -
  have "Finite (3422051306540269 / 9007199254740992) \<le> float_literal (1 / 2)"
    by (simp add: float_half)
  with get_spread_exchanges float_half show ?thesis by (intro conjI)
qed

text \<open>
  Claim C5 as amended. The threshold is the float literal \<^verbatim>\<open>0.1\<close> of line 64, fixed in the
  code. An opportunity is emitted only if its \<open>profit_percent\<close> is strictly above it, by the
  detector and by \<^verbatim>\<open>get_arbitrage_opportunities\<close>; a price dictionary whose computed
  percentage is at most \<^verbatim>\<open>0.1\<close> yields no opportunity. At exactly \<^verbatim>\<open>0.1\<close> nothing is
  emitted.
\<close>

theorem threshold_is_strict:
  "(detect symbol' prices = Inr opps \<longrightarrow>
      (\<forall>opp\<in>set opps. float_literal (1 / 10) < profit_percent opp)) \<and>
   (\<forall>opp\<in>set (get_arbitrage_opportunities exs symbol').
      float_literal (1 / 10) < profit_percent opp) \<and>
   (distinct (map fst prices) \<and>
    arbitrage_percent (Max ((bid \<circ> snd) ` set prices))
      (Min ((ask \<circ> snd) ` set prices)) = Inr percent \<and>
    percent \<le> float_literal (1 / 10) \<longrightarrow>
      detect symbol' prices = Inr []) \<and>
   (arbitrage_percent (Max ((bid \<circ> snd) ` set (fetch_prices exs symbol' [])))
      (Min ((ask \<circ> snd) ` set (fetch_prices exs symbol' []))) = Inr percent \<and>
    percent \<le> float_literal (1 / 10) \<longrightarrow>
      get_arbitrage_opportunities exs symbol' = []) \<and>
   float_literal (1 / 10) = Finite (3602879701896397 / 36028797018963968)"
proof (intro conjI impI ballI)
  fix opp
  assume "detect symbol' prices = Inr opps" and "opp \<in> set opps"
  then show "float_literal (1 / 10) < profit_percent opp"
    using detect_guards by blast
next
  fix opp
  assume "opp \<in> set (get_arbitrage_opportunities exs symbol')"
  then obtain opps where "detect symbol' (fetch_prices exs symbol' []) = Inr opps" "opp \<in> set opps"
    using get_arbitrage_opportunities_mem by blast
  then show "float_literal (1 / 10) < profit_percent opp"
    using detect_guards by blast
next
  assume h: "distinct (map fst prices) \<and>
    arbitrage_percent (Max ((bid \<circ> snd) ` set prices))
      (Min ((ask \<circ> snd) ` set prices)) = Inr percent \<and>
    percent \<le> float_literal (1 / 10)"
  then have "distinct (map fst prices)"
    and "arbitrage_percent (Max ((bid \<circ> snd) ` set prices))
      (Min ((ask \<circ> snd) ` set prices)) = Inr percent"
    and "percent \<le> float_literal (1 / 10)"
    by simp_all
  then show "detect symbol' prices = Inr []"
    by (rule detect_below_threshold)
next
  assume h: "arbitrage_percent (Max ((bid \<circ> snd) ` set (fetch_prices exs symbol' [])))
      (Min ((ask \<circ> snd) ` set (fetch_prices exs symbol' []))) = Inr percent \<and>
    percent \<le> float_literal (1 / 10)"
  have "distinct (map fst (fetch_prices exs symbol' []))"
    by (rule fetch_prices_distinct) simp
  from detect_below_threshold [OF this conjunct1 [OF h] conjunct2 [OF h]]
  show "get_arbitrage_opportunities exs symbol' = []"
    by (rule get_arbitrage_opportunities_empty)
next
  show "float_literal (1 / 10) = Finite (3602879701896397 / 36028797018963968)"
    by (rule float_tenth)
qed

theorem threshold_is_strict_witness:
  "distinct (map fst boundary_prices) \<and>
   Max ((bid \<circ> snd) ` set boundary_prices) = 1001 \<and>
   Min ((ask \<circ> snd) ` set boundary_prices) = 1000 \<and>
   arbitrage_percent 1001 1000 = Inr (Finite (3602879701896397 / 36028797018963968)) \<and>
   Finite (3602879701896397 / 36028797018963968) \<le> float_literal (1 / 10) \<and>
   detect ''BTC/USDT'' boundary_prices = Inr [] \<and>
   fetch_prices boundary_exchanges ''BTC/USDT'' [] = boundary_prices \<and>
   get_arbitrage_opportunities boundary_exchanges ''BTC/USDT'' = [] \<and>
   (\<exists>opp. detect ''BTC/USDT'' spread_prices = Inr [opp] \<and>
      float_literal (1 / 10) < profit_percent opp) \<and>
   (\<exists>opp. get_arbitrage_opportunities spread_exchanges ''BTC/USDT'' = [opp] \<and>
      float_literal (1 / 10) < profit_percent opp)"
proof -
  let ?opp = "\<lparr>buy_at = ''binance'', sell_at = ''kucoin'', buy_price = 50010, sell_price = 50200,
           profit_percent = Finite (3422051306540269 / 9007199254740992), symbol = ''BTC/USDT''\<rparr>"
  let ?tenth = "Finite (3602879701896397 / 36028797018963968)"
  have d: "distinct (map fst boundary_prices)" by (simp add: boundary_prices_def)
  have mx: "Max ((bid \<circ> snd) ` set boundary_prices) = 1001"
    by (simp add: boundary_prices_def)
  have mn: "Min ((ask \<circ> snd) ` set boundary_prices) = 1000"
    by (simp add: boundary_prices_def)
  have le: "?tenth \<le> float_literal (1 / 10)" by (simp add: float_tenth)
  have f: "fetch_prices boundary_exchanges ''BTC/USDT'' [] = boundary_prices"
    by (simp add: boundary_exchanges_def boundary_prices_def quoting_def)
  have hyp: "distinct (map fst boundary_prices) \<and>
    arbitrage_percent (Max ((bid \<circ> snd) ` set boundary_prices))
      (Min ((ask \<circ> snd) ` set boundary_prices)) = Inr ?tenth \<and>
    ?tenth \<le> float_literal (1 / 10)"
    unfolding mx mn using d boundary_percent le by simp
  have hyp': "arbitrage_percent
      (Max ((bid \<circ> snd) ` set (fetch_prices boundary_exchanges ''BTC/USDT'' [])))
      (Min ((ask \<circ> snd) ` set (fetch_prices boundary_exchanges ''BTC/USDT'' []))) = Inr ?tenth \<and>
    ?tenth \<le> float_literal (1 / 10)"
    unfolding f mx mn using boundary_percent le by simp
  note at_boundary = threshold_is_strict [of "''BTC/USDT''" boundary_prices "[]"
      boundary_exchanges ?tenth]
  have none: "detect ''BTC/USDT'' boundary_prices = Inr []"
    using at_boundary [THEN conjunct2, THEN conjunct2, THEN conjunct1, THEN mp, OF hyp] .
  have none': "get_arbitrage_opportunities boundary_exchanges ''BTC/USDT'' = []"
    using at_boundary [THEN conjunct2, THEN conjunct2, THEN conjunct2, THEN conjunct1,
      THEN mp, OF hyp'] .
  have run: "detect ''BTC/USDT'' spread_prices = Inr [?opp]"
    by (rule detect_spread_prices)
  have got: "get_arbitrage_opportunities spread_exchanges ''BTC/USDT'' = [?opp]"
    by (rule get_spread_exchanges)
  note inst = threshold_is_strict [of "''BTC/USDT''" spread_prices "[?opp]" spread_exchanges ?tenth]
  from inst [THEN conjunct1, THEN mp, OF run]
  have a: "float_literal (1 / 10) < profit_percent ?opp" by simp
  from inst [THEN conjunct2, THEN conjunct1] got
  have b: "float_literal (1 / 10) < profit_percent ?opp" by simp
  from run a have ex1: "\<exists>opp. detect ''BTC/USDT'' spread_prices = Inr [opp] \<and>
      float_literal (1 / 10) < profit_percent opp"
    by blast
  from got b have ex2: "\<exists>opp. get_arbitrage_opportunities spread_exchanges ''BTC/USDT'' = [opp] \<and>
      float_literal (1 / 10) < profit_percent opp"
    by blast
  from d mx mn boundary_percent le none f none' ex1 ex2 show ?thesis by (intro conjI)
qed

text \<open>
  Claim C6. Whatever opportunities were gathered, lines 93 and 94 return them in descending
  order of \<open>profit_percent\<close> and return at most 5 of them; so does \<^verbatim>\<open>scan_multiple_pairs\<close>.
\<close>

theorem ranking_sorted_and_bounded:
  "sorted_wrt (\<lambda>a b. profit_percent b \<le> profit_percent a) (rank_opportunities all_opportunities) \<and>
   length (rank_opportunities all_opportunities) \<le> 5 \<and>
   length (rank_opportunities all_opportunities) = min 5 (length all_opportunities) \<and>
   sorted_wrt (\<lambda>a b. profit_percent b \<le> profit_percent a) (scan_multiple_pairs exs) \<and>
   length (scan_multiple_pairs exs) \<le> 5"
  by (simp add: rank_sorted rank_length scan_multiple_pairs_def)

text \<open>
  Claim C7. A symbol whose scan raises is skipped by the loop of lines 85 to 91: the result is
  the one of the loop without that symbol. A symbol for which every exchange's fetch raises
  makes \<^verbatim>\<open>get_arbitrage_opportunities\<close> return the empty list, not raise. And the result
  of \<^verbatim>\<open>scan_multiple_pairs\<close> holds the opportunities found for every pair of
  \<open>common_pairs\<close>, whatever happened at the other pairs.
\<close>

theorem scan_isolates_failures:
  "(scan_one pair = Inl e \<longrightarrow>
      scan_loop scan_one (before @ pair # after) acc = scan_loop scan_one (before @ after) acc) \<and>
   ((\<forall>ex\<in>snd ` set exs. \<exists>e. ex failed = Inl e) \<longrightarrow>
      get_arbitrage_opportunities exs failed = []) \<and>
   set (scan_multiple_pairs exs) =
     (\<Union>other\<in>set common_pairs. set (get_arbitrage_opportunities exs other))"
proof (intro conjI impI)
  assume "scan_one pair = Inl e"
  then show "scan_loop scan_one (before @ pair # after) acc = scan_loop scan_one (before @ after) acc"
    by (simp add: scan_loop_concat)
next
  assume "\<forall>ex\<in>snd ` set exs. \<exists>e. ex failed = Inl e"
  then have "fetch_prices exs failed [] = []" by (rule fetch_prices_all_fail)
  then show "get_arbitrage_opportunities exs failed = []"
    by (simp add: get_arbitrage_opportunities_def detect_short)
next
  show "set (scan_multiple_pairs exs) =
     (\<Union>other\<in>set common_pairs. set (get_arbitrage_opportunities exs other))"
    by (rule scan_multiple_pairs_set)
qed

theorem scan_isolates_failures_witness:
  "failing_scan ''ETH/USDT'' = Inl (ExchangeError ''timeout'') \<and>
   scan_loop failing_scan ([''BTC/USDT''] @ ''ETH/USDT'' # [''ADA/USDT'']) [] =
     scan_loop failing_scan ([''BTC/USDT''] @ [''ADA/USDT'']) [] \<and>
   (\<exists>e. quoting ''BTC/USDT'' 50000 50010 ''ETH/USDT'' = Inl e) \<and>
   (\<exists>e. quoting ''BTC/USDT'' 50200 50220 ''ETH/USDT'' = Inl e) \<and>
   get_arbitrage_opportunities spread_exchanges ''ETH/USDT'' = [] \<and>
   set (scan_multiple_pairs spread_exchanges) =
     (\<Union>other\<in>set common_pairs. set (get_arbitrage_opportunities spread_exchanges other)) \<and>
   scan_multiple_pairs spread_exchanges =
     [\<lparr>buy_at = ''binance'', sell_at = ''kucoin'', buy_price = 50010, sell_price = 50200,
       profit_percent = Finite (3422051306540269 / 9007199254740992), symbol = ''BTC/USDT''\<rparr>]"
proof -
  have f: "failing_scan ''ETH/USDT'' = Inl (ExchangeError ''timeout'')"
    by (simp add: failing_scan_def)
  have q1: "\<exists>e. quoting ''BTC/USDT'' 50000 50010 ''ETH/USDT'' = Inl e"
    and q2: "\<exists>e. quoting ''BTC/USDT'' 50200 50220 ''ETH/USDT'' = Inl e"
    by (simp_all add: quoting_def)
  have down: "\<forall>ex\<in>snd ` set spread_exchanges. \<exists>e. ex ''ETH/USDT'' = Inl e"
    using q1 q2 by (simp add: spread_exchanges_def)
  have run: "scan_multiple_pairs spread_exchanges =
     [\<lparr>buy_at = ''binance'', sell_at = ''kucoin'', buy_price = 50010, sell_price = 50200,
       profit_percent = Finite (3422051306540269 / 9007199254740992), symbol = ''BTC/USDT''\<rparr>]"
    by (rule scan_spread_exchanges)
  note inst = scan_isolates_failures [of failing_scan "''ETH/USDT''" "ExchangeError ''timeout''"
      "[''BTC/USDT'']" "[''ADA/USDT'']" "[]" spread_exchanges "''ETH/USDT''"]
  from inst [THEN conjunct1, rule_format, OF f]
    inst [THEN conjunct2, THEN conjunct1, THEN mp, OF down]
    inst [THEN conjunct2, THEN conjunct2] f q1 q2 run
  show ?thesis by (intro conjI)
qed

text \<open>
  Claim C8 says that the caller can tell "no data" from "no opportunity". It cannot: with
  every exchange unreachable, with no exchange at all, and with two exchanges quoting without
  a profitable spread, \<^verbatim>\<open>get_arbitrage_opportunities\<close> returns the same empty list.
\<close>

theorem no_data_status_counterexample:
  "fetch_prices unreachable_exchanges ''BTC/USDT'' [] = [] \<and>
   fetch_prices flat_exchanges ''BTC/USDT'' [] =
     [(''binance'', \<lparr>bid = 100, ask = 101, last_price = None\<rparr>),
      (''kucoin'', \<lparr>bid = 7040392854975283 / 70368744177664, ask = 3550103143763149 / 35184372088832, last_price = None\<rparr>)] \<and>
   get_arbitrage_opportunities unreachable_exchanges ''BTC/USDT'' = [] \<and>
   get_arbitrage_opportunities flat_exchanges ''BTC/USDT'' = [] \<and>
   get_arbitrage_opportunities [] ''BTC/USDT'' = [] \<and>
   get_arbitrage_opportunities unreachable_exchanges ''BTC/USDT'' =
     get_arbitrage_opportunities flat_exchanges ''BTC/USDT''"
  by (simp add: get_arbitrage_opportunities_def unreachable_exchanges_def unreachable_def
      flat_exchanges_def quoting_def detect_eval)

text \<open>
  Claim C8 as amended. When no exchange supplies a quote (the price dictionary is empty),
  \<^verbatim>\<open>get_arbitrage_opportunities\<close> returns the empty list, the very value it returns when
  quotes are there without a profitable spread; the result carries no status.
\<close>

theorem no_data_same_as_no_opportunity:
  "(fetch_prices exs symbol' [] = [] \<longrightarrow> get_arbitrage_opportunities exs symbol' = []) \<and>
   (fetch_prices exs symbol' [] = [] \<and>
    Max ((bid \<circ> snd) ` set (fetch_prices exs' symbol' []))
      \<le> Min ((ask \<circ> snd) ` set (fetch_prices exs' symbol' [])) \<longrightarrow>
      get_arbitrage_opportunities exs symbol' = get_arbitrage_opportunities exs' symbol')"
proof (intro conjI impI)
  assume "fetch_prices exs symbol' [] = []"
  then show "get_arbitrage_opportunities exs symbol' = []"
    by (simp add: get_arbitrage_opportunities_def detect_short)
next
  assume h: "fetch_prices exs symbol' [] = [] \<and>
    Max ((bid \<circ> snd) ` set (fetch_prices exs' symbol' []))
      \<le> Min ((ask \<circ> snd) ` set (fetch_prices exs' symbol' []))"
  then have a: "get_arbitrage_opportunities exs symbol' = []"
    by (simp add: get_arbitrage_opportunities_def detect_short)
  have "distinct (map fst (fetch_prices exs' symbol' []))"
    by (rule fetch_prices_distinct) simp
  from detect_no_positive_spread [OF this conjunct2 [OF h]]
  have "get_arbitrage_opportunities exs' symbol' = []"
    by (rule get_arbitrage_opportunities_empty)
  with a show "get_arbitrage_opportunities exs symbol' = get_arbitrage_opportunities exs' symbol'"
    by simp
qed

theorem no_data_same_as_no_opportunity_witness:
  "fetch_prices unreachable_exchanges ''BTC/USDT'' [] = [] \<and>
   Max ((bid \<circ> snd) ` set (fetch_prices flat_exchanges ''BTC/USDT'' []))
      \<le> Min ((ask \<circ> snd) ` set (fetch_prices flat_exchanges ''BTC/USDT'' [])) \<and>
   get_arbitrage_opportunities unreachable_exchanges ''BTC/USDT'' = [] \<and>
   get_arbitrage_opportunities unreachable_exchanges ''BTC/USDT'' =
     get_arbitrage_opportunities flat_exchanges ''BTC/USDT''"
proof -
  have e: "fetch_prices unreachable_exchanges ''BTC/USDT'' [] = []"
    by (simp add: unreachable_exchanges_def unreachable_def)
  have f: "fetch_prices flat_exchanges ''BTC/USDT'' [] =
     [(''binance'', \<lparr>bid = 100, ask = 101, last_price = None\<rparr>),
      (''kucoin'', \<lparr>bid = 7040392854975283 / 70368744177664, ask = 3550103143763149 / 35184372088832, last_price = None\<rparr>)]"
    by (simp add: flat_exchanges_def quoting_def)
  have le: "Max ((bid \<circ> snd) ` set (fetch_prices flat_exchanges ''BTC/USDT'' []))
      \<le> Min ((ask \<circ> snd) ` set (fetch_prices flat_exchanges ''BTC/USDT'' []))"
    unfolding f by simp
  note inst = no_data_same_as_no_opportunity [of unreachable_exchanges "''BTC/USDT''" flat_exchanges]
  from inst [THEN conjunct1, rule_format, OF e]
    inst [THEN conjunct2, rule_format, OF conjI [OF e le]] e le
  show ?thesis by (intro conjI)
qed

text \<open>
  Claim C9. The selection of lines 55 and 56 does not exclude one exchange being both sides:
  when binance reports bid 101 above ask 100 (and kucoin 99/102), the opportunity emitted
  buys at binance and sells at binance.
\<close>

theorem same_exchange_opportunity:
  "fetch_prices crossed_exchanges ''BTC/USDT'' [] =
     [(''binance'', \<lparr>bid = 101, ask = 100, last_price = None\<rparr>),
      (''kucoin'', \<lparr>bid = 99, ask = 102, last_price = None\<rparr>)] \<and>
   get_arbitrage_opportunities crossed_exchanges ''BTC/USDT'' =
     [\<lparr>buy_at = ''binance'', sell_at = ''binance'', buy_price = 100, sell_price = 101,
       profit_percent = Finite 1, symbol = ''BTC/USDT''\<rparr>]"
  by (simp add: get_arbitrage_opportunities_def crossed_exchanges_def quoting_def detect_eval
      crossed_percent float_tenth)

text \<open>
  Claim C10. On a non-empty price dictionary the buy exchange selected at line 55 is an entry
  with the lowest ask such that every entry before it, in insertion order, has a strictly higher
  ask: the first of the tied entries. Likewise the sell exchange of line 56 is the first entry
  with the highest bid. An emitted opportunity names these two exchanges. The selection is a
  function of the dictionary, so two calls agree.
\<close>

theorem ties_go_to_first_exchange:
  "distinct (map fst prices) \<and> prices \<noteq> [] \<longrightarrow>
   (\<exists>before_buy buy p after_buy before_sell sell q after_sell.
      lowest_ask_exchange prices = Inr buy \<and>
      prices = before_buy @ (buy, p) # after_buy \<and>
      (\<forall>e\<in>set before_buy. ask p < ask (snd e)) \<and>
      (\<forall>e\<in>set after_buy. ask p \<le> ask (snd e)) \<and>
      highest_bid_exchange prices = Inr sell \<and>
      prices = before_sell @ (sell, q) # after_sell \<and>
      (\<forall>e\<in>set before_sell. bid (snd e) < bid q) \<and>
      (\<forall>e\<in>set after_sell. bid (snd e) \<le> bid q) \<and>
      (\<forall>symbol' opp. detect symbol' prices = Inr [opp] \<longrightarrow>
         buy_at opp = buy \<and> sell_at opp = sell))"
proof
  assume h: "distinct (map fst prices) \<and> prices \<noteq> []"
  then have dist: "distinct (map fst prices)" and ne: "prices \<noteq> []" by simp_all
  from lowest_ask_exchange_first [OF dist ne] obtain b1 buy p a1 where
    lo: "prices = b1 @ (buy, p) # a1" "lowest_ask_exchange prices = Inr buy"
      "dict_get prices buy = Inr p"
      "\<forall>e\<in>set b1. ask p < ask (snd e)" "\<forall>e\<in>set a1. ask p \<le> ask (snd e)"
    by blast
  from highest_bid_exchange_first [OF dist ne] obtain b2 sell q a2 where
    hi: "prices = b2 @ (sell, q) # a2" "highest_bid_exchange prices = Inr sell"
      "dict_get prices sell = Inr q"
      "\<forall>e\<in>set b2. bid (snd e) < bid q" "\<forall>e\<in>set a2. bid (snd e) \<le> bid q"
    by blast
  have emit: "\<forall>symbol' opp. detect symbol' prices = Inr [opp] \<longrightarrow>
         buy_at opp = buy \<and> sell_at opp = sell"
  proof (intro allI impI)
    fix symbol' opp
    assume "detect symbol' prices = Inr [opp]"
    then show "buy_at opp = buy \<and> sell_at opp = sell"
      using lo(2,3) hi(2,3)
      by (auto simp: detect_def Let_def split: if_splits sum.splits)
  qed
  show "\<exists>before_buy buy p after_buy before_sell sell q after_sell.
      lowest_ask_exchange prices = Inr buy \<and>
      prices = before_buy @ (buy, p) # after_buy \<and>
      (\<forall>e\<in>set before_buy. ask p < ask (snd e)) \<and>
      (\<forall>e\<in>set after_buy. ask p \<le> ask (snd e)) \<and>
      highest_bid_exchange prices = Inr sell \<and>
      prices = before_sell @ (sell, q) # after_sell \<and>
      (\<forall>e\<in>set before_sell. bid (snd e) < bid q) \<and>
      (\<forall>e\<in>set after_sell. bid (snd e) \<le> bid q) \<and>
      (\<forall>symbol' opp. detect symbol' prices = Inr [opp] \<longrightarrow>
         buy_at opp = buy \<and> sell_at opp = sell)"
    apply (rule exI [of _ b1], rule exI [of _ buy], rule exI [of _ p], rule exI [of _ a1])
    apply (rule exI [of _ b2], rule exI [of _ sell], rule exI [of _ q], rule exI [of _ a2])
    using lo hi emit by (intro conjI)
qed

theorem ties_go_to_first_exchange_witness:
  "distinct (map fst tie_prices) \<and> tie_prices \<noteq> [] \<and>
   (\<exists>before_buy buy p after_buy before_sell sell q after_sell.
      lowest_ask_exchange tie_prices = Inr buy \<and>
      tie_prices = before_buy @ (buy, p) # after_buy \<and>
      (\<forall>e\<in>set before_buy. ask p < ask (snd e)) \<and>
      (\<forall>e\<in>set after_buy. ask p \<le> ask (snd e)) \<and>
      highest_bid_exchange tie_prices = Inr sell \<and>
      tie_prices = before_sell @ (sell, q) # after_sell \<and>
      (\<forall>e\<in>set before_sell. bid (snd e) < bid q) \<and>
      (\<forall>e\<in>set after_sell. bid (snd e) \<le> bid q) \<and>
      (\<forall>symbol' opp. detect symbol' tie_prices = Inr [opp] \<longrightarrow>
         buy_at opp = buy \<and> sell_at opp = sell)) \<and>
   lowest_ask_exchange tie_prices = Inr ''binance'' \<and>
   highest_bid_exchange tie_prices = Inr ''kucoin'' \<and>
   detect ''BTC/USDT'' tie_prices =
     Inr [\<lparr>buy_at = ''binance'', sell_at = ''kucoin'', buy_price = 101, sell_price = 102,
           profit_percent = Finite (1114752383012499 / 1125899906842624), symbol = ''BTC/USDT''\<rparr>]"
proof -
  have d: "distinct (map fst tie_prices)" and ne: "tie_prices \<noteq> []"
    by (simp_all add: tie_prices_def)
  have lo: "lowest_ask_exchange tie_prices = Inr ''binance''"
    by (simp add: tie_prices_def detect_eval)
  have hi: "highest_bid_exchange tie_prices = Inr ''kucoin''"
    by (simp add: tie_prices_def detect_eval)
  have run: "detect ''BTC/USDT'' tie_prices =
     Inr [\<lparr>buy_at = ''binance'', sell_at = ''kucoin'', buy_price = 101, sell_price = 102,
           profit_percent = Finite (1114752383012499 / 1125899906842624), symbol = ''BTC/USDT''\<rparr>]"
    by (simp add: tie_prices_def detect_eval tie_percent float_tenth)
  from ties_go_to_first_exchange [of tie_prices, THEN mp, OF conjI [OF d ne]] d ne lo hi run
  show ?thesis by (intro conjI)
qed

end
